theory Spec2Isabelle
  imports Complex_Main "HOL-Library.Sublist" "HOL-Library.Char_ord" "HOL-Library.List_Lexorder"
    "HOL-Library.Multiset"
begin

section \<open>Python values, exceptions and tables\<close>

text \<open>
  The book catalog is a JSON array of objects that \<^verbatim>\<open>utils.load_json_data\<close> turns into
  a pandas table and that \<^verbatim>\<open>main.SearchEngine\<close> searches, filters and sorts.

  A Python string is a \<^typ>\<open>string\<close> whose characters are the code points 0 to 255
  (Latin-1); code points above 255 are not represented. A value held by a JSON document
  or by a table cell is a string, a list, \<^verbatim>\<open>None\<close> (JSON \<^verbatim>\<open>null\<close>) or the
  missing-value marker \<^verbatim>\<open>NaN\<close> that pandas puts where an object lacks a key. Numbers,
  booleans and nested objects are not represented.
\<close>

datatype pyobj = Str string | Lst "pyobj list" | PyNone | NaN

datatype exn =
    FileNotFoundError
  | JSONDecodeError
  | KeyError string
  | TypeError
  | ZeroDivisionError
  | OtherException string

text \<open>
  A pandas table has column labels and rows of cells. Two columns may carry the same
  label: \<^verbatim>\<open>rename\<close> in the loader can produce that. A \<open>frame\<close> is such a table, its
  cells by position: every row has one cell per label.
\<close>

record frame =
  labels :: "string list"
  cells :: "pyobj list list"

text \<open>
  The search engine reads and writes columns by label. It is modelled on tables whose
  labels are pairwise distinct, a \<open>dataframe\<close>: a row gives every column its value, and
  is \<open>NaN\<close> off the columns.
\<close>

type_synonym row = "string \<Rightarrow> pyobj"

record dataframe =
  columns :: "string list"
  rows :: "row list"

text \<open>
  A frame whose labels are pairwise distinct, read by label: the table the application
  hands to its search engine.
\<close>

definition by_label :: "frame \<Rightarrow> dataframe" where
  "by_label f =
     \<lparr>columns = labels f,
      rows = map (\<lambda>r c. case map_of (zip (labels f) r) c of Some v \<Rightarrow> v | None \<Rightarrow> NaN)
               (cells f)\<rparr>"

text \<open>
  A call that raises ends the function that made it, unless the function catches the
  exception: \<open>and_then r f\<close> goes on with \<open>f\<close> when \<open>r\<close> is a value.
\<close>

definition and_then :: "exn + 'a \<Rightarrow> ('a \<Rightarrow> exn + 'b) \<Rightarrow> exn + 'b" where
  "and_then r f = (case r of Inl e \<Rightarrow> Inl e | Inr x \<Rightarrow> f x)"

section \<open>Python strings\<close>

text \<open>
  \<^verbatim>\<open>str.isspace\<close>, \<^verbatim>\<open>str.strip\<close> and \<^verbatim>\<open>str.lower\<close> on the code points 0 to 255:
  the whitespace characters are U+0009 to U+000D, U+001C to U+0020, U+0085 and U+00A0;
  the letters with a lower-case form are A to Z, U+00C0 to U+00D6 and U+00D8 to U+00DE,
  each 32 below its lower-case form.
\<close>

definition py_isspace :: "char \<Rightarrow> bool" where
  "py_isspace c =
     (let n = (of_char c :: nat)
      in (0x09 \<le> n \<and> n \<le> 0x0D) \<or> (0x1C \<le> n \<and> n \<le> 0x20) \<or> n = 0x85 \<or> n = 0xA0)"

definition py_strip :: "string \<Rightarrow> string" where
  "py_strip s = rev (dropWhile py_isspace (rev (dropWhile py_isspace s)))"

definition lower_char :: "char \<Rightarrow> char" where
  "lower_char c =
     (let n = (of_char c :: nat)
      in if (0x41 \<le> n \<and> n \<le> 0x5A) \<or> (0xC0 \<le> n \<and> n \<le> 0xD6) \<or> (0xD8 \<le> n \<and> n \<le> 0xDE)
         then char_of (n + 0x20) else c)"

definition py_lower :: "string \<Rightarrow> string" where
  "py_lower s = map lower_char s"

text \<open>\<^verbatim>\<open>sep.join(xs)\<close>.\<close>

fun join :: "string \<Rightarrow> string list \<Rightarrow> string" where
  "join sep [] = []"
| "join sep [x] = x"
| "join sep (x # y # ys) = x @ sep @ join sep (y # ys)"

text \<open>
  \<^verbatim>\<open>repr\<close> of a string: in single quotes, or in double quotes when the string has a
  single quote and no double quote; the quote character and the backslash are escaped,
  tab, newline and carriage return are written \<^verbatim>\<open>\t\<close>, \<^verbatim>\<open>\n\<close>, \<^verbatim>\<open>\r\<close>, and every other
  character that is not printable (below U+0020, U+007F to U+00A0, U+00AD) is written
  as \<^verbatim>\<open>\xhh\<close>.
\<close>

definition hex_digit :: "nat \<Rightarrow> char" where
  "hex_digit d = ''0123456789abcdef'' ! (d mod 16)"

definition repr_char :: "char \<Rightarrow> char \<Rightarrow> string" where
  "repr_char quote c =
     (let n = (of_char c :: nat)
      in if c = quote \<or> c = CHR 0x5C then [CHR 0x5C, c]
         else if n = 0x09 then [CHR 0x5C, CHR ''t'']
         else if n = 0x0A then [CHR 0x5C, CHR ''n'']
         else if n = 0x0D then [CHR 0x5C, CHR ''r'']
         else if n < 0x20 \<or> (0x7F \<le> n \<and> n \<le> 0xA0) \<or> n = 0xAD
           then [CHR 0x5C, CHR ''x'', hex_digit (n div 16), hex_digit n]
         else [c])"

definition repr_str :: "string \<Rightarrow> string" where
  "repr_str s =
     (let quote = (if CHR 0x27 \<in> set s \<and> CHR 0x22 \<notin> set s then CHR 0x22 else CHR 0x27)
      in [quote] @ concat (map (repr_char quote) s) @ [quote])"

fun py_repr :: "pyobj \<Rightarrow> string" where
  "py_repr (Str s) = repr_str s"
| "py_repr (Lst xs) = ''['' @ join '', '' (map py_repr xs) @ '']''"
| "py_repr PyNone = ''None''"
| "py_repr NaN = ''nan''"

text \<open>
  \<^verbatim>\<open>str(x)\<close>, which is also what \<^verbatim>\<open>astype(str)\<close> puts in a cell: a string is
  itself, \<^verbatim>\<open>None\<close> is \<^verbatim>\<open>'None'\<close>, a missing value is \<^verbatim>\<open>'nan'\<close>, a list is its
  \<^verbatim>\<open>repr\<close>.
\<close>

definition py_str :: "pyobj \<Rightarrow> string" where
  "py_str x = (case x of Str s \<Rightarrow> s | _ \<Rightarrow> py_repr x)"

text \<open>\<^verbatim>\<open>isinstance(x, list)\<close> with the fallback the source writes after it.\<close>

definition list_or_empty :: "pyobj \<Rightarrow> pyobj list" where
  "list_or_empty x = (case x of Lst xs \<Rightarrow> xs | _ \<Rightarrow> [])"

text \<open>\<^verbatim>\<open>pandas.isna\<close> on a single value.\<close>

definition isna :: "pyobj \<Rightarrow> bool" where
  "isna x = (x = PyNone \<or> x = NaN)"

section \<open>Table operations\<close>

text \<open>\<^verbatim>\<open>pd.DataFrame()\<close>: no columns and no rows.\<close>

definition DataFrame_empty :: frame where
  "DataFrame_empty = \<lparr>labels = [], cells = []\<rparr>"

text \<open>
  A parsed JSON object is a Python dictionary: its keys in insertion order, each key once.
  \<^verbatim>\<open>pd.DataFrame(data)\<close> on a list of dictionaries has the keys as columns, in the order
  in which they first appear, one row per dictionary, and \<open>NaN\<close> where a dictionary
  lacks the key.
\<close>

type_synonym json_object = "(string \<times> pyobj) list"

definition first_seen :: "'a list \<Rightarrow> 'a list" where
  "first_seen xs = rev (remdups (rev xs))"

definition DataFrame :: "json_object list \<Rightarrow> frame" where
  "DataFrame data =
     (let keys = first_seen (concat (map (map fst) data))
      in \<lparr>labels = keys,
          cells = map (\<lambda>obj. map (\<lambda>c. case map_of obj c of Some v \<Rightarrow> v | None \<Rightarrow> NaN) keys)
                    data\<rparr>)"

text \<open>
  \<^verbatim>\<open>df.rename(columns=mapper)\<close>: every label that is a key of the mapper is replaced,
  the cells stay where they are. Two columns have the same label afterwards when the
  table had both a key of the mapper and the label it is mapped to.
\<close>

definition new_label :: "(string \<times> string) list \<Rightarrow> string \<Rightarrow> string" where
  "new_label mapper c = (case map_of mapper c of Some c' \<Rightarrow> c' | None \<Rightarrow> c)"

definition rename :: "(string \<times> string) list \<Rightarrow> frame \<Rightarrow> frame" where
  "rename mapper f = f\<lparr>labels := map (new_label mapper) (labels f)\<rparr>"

text \<open>The positions of the columns with a given label, and a change of one cell of a row.\<close>

definition positions :: "string list \<Rightarrow> string \<Rightarrow> nat list" where
  "positions ls c = filter (\<lambda>i. ls ! i = c) [0..<length ls]"

definition map_at :: "nat \<Rightarrow> ('a \<Rightarrow> 'a) \<Rightarrow> 'a list \<Rightarrow> 'a list" where
  "map_at i g r = (if i < length r then r[i := g (r ! i)] else r)"

section \<open>Operations on tables with distinct labels\<close>

text \<open>\<^verbatim>\<open>df[c]\<close> reads a column and raises \<^verbatim>\<open>KeyError\<close> when there is none.\<close>

definition getitem :: "dataframe \<Rightarrow> string \<Rightarrow> exn + pyobj list" where
  "getitem d c =
     (if c \<in> set (columns d) then Inr (map (\<lambda>r. r c) (rows d)) else Inl (KeyError c))"

text \<open>
  \<^verbatim>\<open>df[c] = values\<close> overwrites the column, or appends it when the label is new.
\<close>

definition setitem :: "dataframe \<Rightarrow> string \<Rightarrow> pyobj list \<Rightarrow> dataframe" where
  "setitem d c values =
     \<lparr>columns = (if c \<in> set (columns d) then columns d else columns d @ [c]),
      rows = map2 (\<lambda>r v. r(c := v)) (rows d) values\<rparr>"

text \<open>\<^verbatim>\<open>df[mask]\<close> keeps the rows at which the Boolean column is true.\<close>

definition boolean_index :: "dataframe \<Rightarrow> bool list \<Rightarrow> dataframe" where
  "boolean_index d keep = d\<lparr>rows := map fst (filter snd (zip (rows d) keep))\<rparr>"

text \<open>\<^verbatim>\<open>a | b\<close> on two Boolean columns.\<close>

definition series_or :: "bool list \<Rightarrow> bool list \<Rightarrow> bool list" where
  "series_or a b = map2 (\<or>) a b"

text \<open>
  \<^verbatim>\<open>col.str.contains(pat, na=False, regex=False)\<close>: \<^verbatim>\<open>pat in s\<close> on a string, false
  on anything else. \<^const>\<open>sublist\<close> is a contiguous occurrence.
\<close>

definition str_contains :: "pyobj list \<Rightarrow> string \<Rightarrow> bool list" where
  "str_contains col pat = map (\<lambda>v. case v of Str s \<Rightarrow> sublist pat s | _ \<Rightarrow> False) col"

text \<open>\<^verbatim>\<open>col.isin(values)\<close> with a list of strings.\<close>

definition isin :: "pyobj list \<Rightarrow> string list \<Rightarrow> bool list" where
  "isin col values = map (\<lambda>v. v \<in> Str ` set values) col"

section \<open>\<^verbatim>\<open>utils.py\<close>\<close>

text \<open>
  What \<^verbatim>\<open>open\<close> and \<^verbatim>\<open>json.load\<close> do is an input of the model: they raise, or they
  give the parsed document, a JSON array of objects.
\<close>

datatype file_read = Raises exn | Parsed "json_object list"

text \<open>The lines \<^verbatim>\<open>load_json_data\<close> prints, by their format string.\<close>

datatype printed =
    File_not_found string
  | Invalid_JSON string
  | Error_loading_data exn

definition legacy_names :: "(string \<times> string) list" where
  "legacy_names =
     [(''titel'', ''title''), (''autor'', ''author''), (''sprache'', ''language''),
      (''schlagw'' @ [CHR 0xF6] @ ''rter'', ''tags'')]"

text \<open>
  ``Normalize column names (handle German field names)'': the four labels are renamed
  when the table has a column \<^verbatim>\<open>titel\<close>.
\<close>

definition normalize_columns :: "frame \<Rightarrow> frame" where
  "normalize_columns df =
     (if ''titel'' \<in> set (labels df) then rename legacy_names df else df)"

text \<open>
  The body of the \<^verbatim>\<open>try\<close> block. In
  \<^verbatim>\<open>df['tags'] = df['tags'].apply(lambda x: x if isinstance(x, list) else [])\<close>
  the value of \<^verbatim>\<open>df['tags']\<close> depends on how many columns have the label:
  \<^item> none: \<^verbatim>\<open>KeyError\<close>;
  \<^item> one: a column; \<^verbatim>\<open>apply\<close> calls the function on every cell, and the assignment
    writes the results back;
  \<^item> two (a file with \<^verbatim>\<open>titel\<close> that has both \<^verbatim>\<open>tags\<close> and the legacy key for
    them): a table of the two columns; \<^verbatim>\<open>apply\<close> calls the function on each column
    as a whole, which is not a list, so the result is a table without rows, and the
    assignment, which matches rows by their index, leaves \<open>NaN\<close> in every cell of both
    columns. Nothing is raised.
\<close>

definition try_block :: "file_read \<Rightarrow> exn + frame" where
  "try_block fr =
     (case fr of
        Raises e \<Rightarrow> Inl e
      | Parsed data \<Rightarrow>
          let df = normalize_columns (DataFrame data)
          in case positions (labels df) ''tags'' of
               [] \<Rightarrow> Inl (KeyError ''tags'')
             | [i] \<Rightarrow>
                 Inr (df\<lparr>cells :=
                   map (map_at i (\<lambda>x. case x of Lst xs \<Rightarrow> x | _ \<Rightarrow> Lst [])) (cells df)\<rparr>)
             | i # j # others \<Rightarrow>
                 Inr (df\<lparr>cells :=
                   map (\<lambda>r. fold (\<lambda>k. map_at k (\<lambda>x. NaN)) (i # j # others) r) (cells df)\<rparr>))"

text \<open>
  \<^verbatim>\<open>load_json_data\<close> returns a table and prints at most one line. The three
  \<^verbatim>\<open>except\<close> clauses are tried in the source's order; the last one catches every
  \<^verbatim>\<open>Exception\<close>.
\<close>

definition load_json_data :: "string \<Rightarrow> file_read \<Rightarrow> printed list \<times> frame" where
  "load_json_data file_path fr =
     (case try_block fr of
        Inr df \<Rightarrow> ([], df)
      | Inl FileNotFoundError \<Rightarrow> ([File_not_found file_path], DataFrame_empty)
      | Inl JSONDecodeError \<Rightarrow> ([Invalid_JSON file_path], DataFrame_empty)
      | Inl e \<Rightarrow> ([Error_loading_data e], DataFrame_empty))"

text \<open>
  \<^verbatim>\<open>get_unique_values\<close>. \<^verbatim>\<open>set\<close> and \<^verbatim>\<open>unique\<close> raise \<^verbatim>\<open>TypeError\<close> on a list
  (it is not hashable), and \<^verbatim>\<open>sorted\<close> raises it when it has to compare \<^verbatim>\<open>None\<close>
  with a string. Strings are ordered by code point, lexicographically.
\<close>

definition is_Str :: "pyobj \<Rightarrow> bool" where
  "is_Str x = (case x of Str s \<Rightarrow> True | _ \<Rightarrow> False)"

definition is_Lst :: "pyobj \<Rightarrow> bool" where
  "is_Lst x = (case x of Lst xs \<Rightarrow> True | _ \<Rightarrow> False)"

definition str_of :: "pyobj \<Rightarrow> string" where
  "str_of x = (case x of Str s \<Rightarrow> s | _ \<Rightarrow> [])"

definition sorted_set :: "pyobj list \<Rightarrow> exn + pyobj list" where
  "sorted_set xs =
     (if list_ex is_Lst xs then Inl TypeError
      else let u = remdups xs
           in if list_all is_Str u then Inr (map Str (sort (map str_of u)))
              else if length u \<le> 1 then Inr u
              else Inl TypeError)"

definition get_unique_values :: "dataframe \<Rightarrow> string \<Rightarrow> exn + pyobj list" where
  "get_unique_values df column =
     (if column \<notin> set (columns df) then Inr []
      else if column = ''tags'' then
        sorted_set (concat (map list_or_empty (map (\<lambda>r. r column) (rows df))))
      else
        sorted_set (filter (\<lambda>v. \<not> isna v) (map (\<lambda>r. r column) (rows df))))"

section \<open>\<^verbatim>\<open>main.SearchEngine\<close>\<close>

record search_engine =
  df :: dataframe
  original_df :: dataframe

text \<open>
  \<^verbatim>\<open>astype(str)\<close> leaves a string as it is. What it makes of a cell that is not a
  string depends on the pandas version: pandas 2 writes the text \<^verbatim>\<open>str\<close> gives
  (\<^verbatim>\<open>'None'\<close>, \<^verbatim>\<open>'nan'\<close>), pandas 3 keeps a missing value missing. It is a parameter
  of the model, of which only the behaviour on strings is fixed.
\<close>

type_synonym astype_str = "pyobj \<Rightarrow> pyobj"

definition astype_str_contract :: "astype_str \<Rightarrow> bool" where
  "astype_str_contract astype_str = (\<forall>s. astype_str (Str s) = Str s)"

text \<open>The conversion of pandas 2, to evaluate examples with.\<close>

definition astype_str_pandas2 :: astype_str where
  "astype_str_pandas2 x = Str (py_str x)"

text \<open>\<^verbatim>\<open>.str.lower()\<close> on a cell: a value that is not a string gives a missing value.\<close>

definition str_lower :: "pyobj \<Rightarrow> pyobj" where
  "str_lower x = (case x of Str s \<Rightarrow> Str (py_lower s) | _ \<Rightarrow> NaN)"

text \<open>
  \<^verbatim>\<open>SearchEngine.__init__\<close> copies the table and adds three lower-cased columns to its
  own copy. Reading \<^verbatim>\<open>title\<close>, \<^verbatim>\<open>author\<close> or \<^verbatim>\<open>tags\<close> raises \<^verbatim>\<open>KeyError\<close> when the
  table has no such column. The tags are joined by Python's own \<^verbatim>\<open>str\<close> and
  \<^verbatim>\<open>lower\<close>.
\<close>

definition SearchEngine :: "astype_str \<Rightarrow> dataframe \<Rightarrow> exn + search_engine" where
  "SearchEngine astype_str d =
     and_then (getitem d ''title'') (\<lambda>title.
       let d1 = setitem d ''_title_lower'' (map (\<lambda>x. str_lower (astype_str x)) title)
       in and_then (getitem d1 ''author'') (\<lambda>author.
            let d2 = setitem d1 ''_author_lower''
                       (map (\<lambda>x. str_lower (astype_str x)) author)
            in and_then (getitem d2 ''tags'') (\<lambda>tags.
                 Inr \<lparr>df = setitem d2 ''_tags_lower''
                         (map (\<lambda>tags. Str (join '' ''
                            (map (\<lambda>tag. py_lower (py_str tag)) (list_or_empty tags))))
                            tags),
                      original_df = d\<rparr>)))"

definition search_books :: "search_engine \<Rightarrow> string \<Rightarrow> exn + dataframe" where
  "search_books self query =
     (if query = [] \<or> py_strip query = [] then Inr (df self)
      else
        let query = py_strip (py_lower query)
        in and_then (getitem (df self) ''_title_lower'') (\<lambda>title_lower.
           and_then (getitem (df self) ''_author_lower'') (\<lambda>author_lower.
           and_then (getitem (df self) ''_tags_lower'') (\<lambda>tags_lower.
             Inr (boolean_index (df self)
                   (series_or
                      (series_or (str_contains title_lower query)
                                 (str_contains author_lower query))
                      (str_contains tags_lower query)))))))"

definition filter_by_language :: "dataframe \<Rightarrow> string list \<Rightarrow> exn + dataframe" where
  "filter_by_language d languages =
     (if languages = [] then Inr d
      else case getitem d ''language'' of
             Inl e \<Rightarrow> Inl e
           | Inr language \<Rightarrow> Inr (boolean_index d (isin language languages)))"

definition filter_by_tags :: "dataframe \<Rightarrow> string list \<Rightarrow> exn + dataframe" where
  "filter_by_tags d tags =
     (if tags = [] then Inr d
      else case getitem d ''tags'' of
             Inl e \<Rightarrow> Inl e
           | Inr col \<Rightarrow>
               Inr (boolean_index d
                 (map (\<lambda>tag_list. list_ex (\<lambda>tag. Str tag \<in> set (list_or_empty tag_list)) tags)
                    col)))"

definition filter_by_author :: "dataframe \<Rightarrow> string list \<Rightarrow> exn + dataframe" where
  "filter_by_author d authors =
     (if authors = [] then Inr d
      else case getitem d ''author'' of
             Inl e \<Rightarrow> Inl e
           | Inr author \<Rightarrow> Inr (boolean_index d (isin author authors)))"

text \<open>
  \<^verbatim>\<open>df.sort_values(by=..., ascending=..., na_position='last')\<close> is a pandas routine and
  a parameter of the model. The source asks for no sorting algorithm, so pandas takes
  its default, \<^verbatim>\<open>kind='quicksort'\<close>.
\<close>

type_synonym sort_values = "dataframe \<Rightarrow> string \<Rightarrow> bool \<Rightarrow> exn + dataframe"

definition sort_books :: "sort_values \<Rightarrow> dataframe \<Rightarrow> string \<Rightarrow> bool \<Rightarrow> exn + dataframe" where
  "sort_books sort_values d sort_by ascending =
     (if sort_by \<notin> set [''title'', ''author'', ''language''] then Inr d
      else sort_values d sort_by ascending)"

text \<open>
  What pandas documents of \<^verbatim>\<open>sort_values\<close> with \<^verbatim>\<open>na_position='last'\<close>: a missing
  column raises \<^verbatim>\<open>KeyError\<close>; a column of strings and missing values is sorted; the
  result has the same columns and the same rows, those with a missing key last and the
  others in the order of their keys, ascending or descending.
\<close>

definition key_before :: "bool \<Rightarrow> pyobj \<Rightarrow> pyobj \<Rightarrow> bool" where
  "key_before ascending x y =
     (isna y \<or> (\<not> isna x \<and>
        (case (x, y) of
           (Str a, Str b) \<Rightarrow> (if ascending then a \<le> b else b \<le> a)
         | _ \<Rightarrow> True)))"

definition sort_values_contract :: "sort_values \<Rightarrow> bool" where
  "sort_values_contract sort_values =
     (\<forall>d by ascending.
        (by \<notin> set (columns d) \<longrightarrow> sort_values d by ascending = Inl (KeyError by)) \<and>
        (by \<in> set (columns d) \<and> (\<forall>r \<in> set (rows d). is_Str (r by) \<or> isna (r by))
           \<longrightarrow> (\<exists>d'. sort_values d by ascending = Inr d')) \<and>
        (\<forall>d'. sort_values d by ascending = Inr d' \<longrightarrow>
           columns d' = columns d \<and> mset (rows d') = mset (rows d) \<and>
           sorted_wrt (\<lambda>r r'. key_before ascending (r by) (r' by)) (rows d')))"

text \<open>
  One routine that meets the contract, to evaluate examples with: insertion sort on the
  rows with a key, the rows without one after them.
\<close>

definition insertion_sort_values :: sort_values where
  "insertion_sort_values d by ascending =
     (if by \<notin> set (columns d) then Inl (KeyError by)
      else
        let keyed = filter (\<lambda>r. \<not> isna (r by)) (rows d);
            missing = filter (\<lambda>r. isna (r by)) (rows d)
        in if \<not> list_all (\<lambda>r. is_Str (r by)) keyed then Inl TypeError
           else Inr (d\<lparr>rows :=
                  (if ascending then sort_key (\<lambda>r. str_of (r by)) keyed
                   else rev (sort_key (\<lambda>r. str_of (r by)) (rev keyed))) @ missing\<rparr>))"

section \<open>\<^verbatim>\<open>main.BookSearchApp\<close>\<close>

text \<open>
  The fields of the application that \<^verbatim>\<open>apply_filters\<close> reads and writes; the widgets'
  variables are the values they hold. \<^verbatim>\<open>self.df\<close> is \<open>app_df\<close> here.
\<close>

record app =
  app_df :: dataframe
  filtered_df :: dataframe
  search_engine :: "search_engine option"
  search_var :: string
  sort_var :: string
  sort_order_var :: string
  language_vars :: "(string \<times> bool) list"
  selected_languages :: "string list"
  selected_tags :: "string list"
  selected_authors :: "string list"
  current_page :: int
  results_per_page :: int

text \<open>The fields as \<^verbatim>\<open>BookSearchApp.__init__\<close> sets them.\<close>

definition BookSearchApp :: app where
  "BookSearchApp =
     \<lparr>app_df = by_label DataFrame_empty, filtered_df = by_label DataFrame_empty,
      search_engine = None,
      search_var = [], sort_var = ''title'', sort_order_var = ''asc'',
      language_vars = [], selected_languages = [], selected_tags = [],
      selected_authors = [], current_page = 0, results_per_page = 50\<rparr>"

text \<open>
  \<^verbatim>\<open>apply_filters\<close> up to its call of \<^verbatim>\<open>display_results\<close>. An exception of a stage
  leaves the method.
\<close>

definition apply_filters :: "sort_values \<Rightarrow> app \<Rightarrow> exn + app" where
  "apply_filters sort_values self =
     (case search_engine self of
        None \<Rightarrow> Inr self
      | Some engine \<Rightarrow>
          let search_query = search_var self;
              languages = map fst (filter snd (language_vars self))
          in
          and_then (if search_query \<noteq> [] then search_books engine search_query
                    else Inr (app_df self)) (\<lambda>result_df.
          and_then (if languages \<noteq> [] then filter_by_language result_df languages
                    else Inr result_df) (\<lambda>result_df.
          and_then (if selected_tags self \<noteq> []
                    then filter_by_tags result_df (selected_tags self)
                    else Inr result_df) (\<lambda>result_df.
          and_then (if selected_authors self \<noteq> []
                    then filter_by_author result_df (selected_authors self)
                    else Inr result_df) (\<lambda>result_df.
          and_then (sort_books sort_values result_df (sort_var self)
                      (sort_order_var self = ''asc'')) (\<lambda>result_df.
            Inr (self\<lparr>selected_languages := languages, filtered_df := result_df\<rparr>)))))))"

section \<open>Pagination (\<^verbatim>\<open>BookSearchApp.display_results\<close>)\<close>

text \<open>
  Python's slice \<^verbatim>\<open>xs[i:j]\<close> (and \<^verbatim>\<open>iloc[i:j]\<close>): a negative bound counts from
  the end, and both bounds are clamped to the length.
\<close>

definition py_slice :: "'a list \<Rightarrow> int \<Rightarrow> int \<Rightarrow> 'a list" where
  "py_slice xs i j =
     (let n = int (length xs);
          s = (if i < 0 then max 0 (i + n) else min i n);
          e = (if j < 0 then max 0 (j + n) else min j n)
      in take (nat (e - s)) (drop (nat s) xs))"

text \<open>
  What \<^verbatim>\<open>display_results\<close> shows: the rows it makes cards of, and the page count it
  hands to \<^verbatim>\<open>update_pagination_controls\<close>. \<^verbatim>\<open>//\<close> raises \<^verbatim>\<open>ZeroDivisionError\<close> on
  a zero divisor and rounds down otherwise, as \<open>div\<close> on \<^typ>\<open>int\<close> does.
\<close>

record page_view =
  page_df :: "row list"
  total_pages :: int

definition display_results :: "app \<Rightarrow> exn + page_view" where
  "display_results self =
     (let total_count = int (length (rows (filtered_df self))) in
      if total_count = 0 then Inr \<lparr>page_df = [], total_pages = 0\<rparr>
      else if results_per_page self = 0 then Inl ZeroDivisionError
      else
        let total_pages = (total_count + results_per_page self - 1) div results_per_page self;
            start_idx = current_page self * results_per_page self;
            end_idx = min (start_idx + results_per_page self) total_count
        in Inr \<lparr>page_df = py_slice (rows (filtered_df self)) start_idx end_idx,
                total_pages = total_pages\<rparr>)"

text \<open>The rows shown and the page count, when \<^verbatim>\<open>display_results\<close> returns.\<close>

definition shown :: "exn + page_view \<Rightarrow> row list" where
  "shown r = (case r of Inl e \<Rightarrow> [] | Inr v \<Rightarrow> page_df v)"

definition pages :: "exn + page_view \<Rightarrow> int option" where
  "pages r = (case r of Inl e \<Rightarrow> None | Inr v \<Rightarrow> Some (total_pages v))"

section \<open>The text search, in the words of the specification\<close>

text \<open>
  A record matches a query when the query occurs, as a contiguous piece, in the
  record's lower-cased title, or in its lower-cased author, or in its lower-cased tags
  joined by single spaces. The title and the author of a book record are strings and
  its tags are a sequence of strings; a cell that is not a string has no text, and a
  record whose tags are not a list has no tags.
\<close>

definition record_matches :: "string \<Rightarrow> row \<Rightarrow> bool" where
  "record_matches q r =
     (sublist q (py_lower (str_of (r ''title'')))
      \<or> sublist q (py_lower (str_of (r ''author'')))
      \<or> sublist q (join '' '' (map (\<lambda>tag. py_lower (str_of tag)) (list_or_empty (r ''tags'')))))"

text \<open>
  A book record as the specification has it: title and author are strings, the tags
  are strings.
\<close>

definition book_record :: "row \<Rightarrow> bool" where
  "book_record r =
     (is_Str (r ''title'') \<and> is_Str (r ''author'')
      \<and> list_all is_Str (list_or_empty (r ''tags'')))"

text \<open>A record of the catalog with the three columns \<^verbatim>\<open>SearchEngine\<close> adds to its copy.\<close>

definition lower_columns :: "astype_str \<Rightarrow> row \<Rightarrow> row" where
  "lower_columns astype_str r =
     r(''_title_lower'' := str_lower (astype_str (r ''title'')),
       ''_author_lower'' := str_lower (astype_str (r ''author'')),
       ''_tags_lower'' :=
          Str (join '' '' (map (\<lambda>tag. py_lower (py_str tag)) (list_or_empty (r ''tags'')))))"

section \<open>Example catalogs\<close>

text \<open>
  Three books, the second with a string where the list of tags should be, the third
  with no tags; one book under the German keys; the two books of the specification's
  scenario; and a book under the German keys that has both \<^verbatim>\<open>tags\<close> and the legacy key
  for them.
\<close>

definition example_catalog :: "json_object list" where
  "example_catalog =
     [[(''title'', Str ''Dune''), (''author'', Str ''Herbert''), (''language'', Str ''en''),
       (''tags'', Lst [Str ''scifi''])],
      [(''title'', Str ''dune guide''), (''author'', Str ''X''), (''language'', Str ''de''),
       (''tags'', Str ''ref'')],
      [(''title'', Str ''Atlas''), (''author'', Str ''Y''), (''language'', Str ''de'')]]"

definition legacy_catalog :: "json_object list" where
  "legacy_catalog =
     [[(''titel'', Str ''Faust''), (''autor'', Str ''Goethe''), (''sprache'', Str ''de''),
       (''schlagw'' @ [CHR 0xF6] @ ''rter'', Lst [Str ''drama''])]]"

definition dune_catalog :: "json_object list" where
  "dune_catalog =
     [[(''title'', Str ''Dune''), (''author'', Str ''Herbert''), (''language'', Str ''en''),
       (''tags'', Lst [Str ''scifi''])],
      [(''title'', Str ''dune guide''), (''author'', Str ''X''), (''language'', Str ''de''),
       (''tags'', Lst [Str ''ref''])],
      [(''title'', Str ''Atlas''), (''author'', Str ''Y''), (''language'', Str ''de''),
       (''tags'', Lst [])]]"

definition mixed_catalog :: "json_object list" where
  "mixed_catalog =
     [[(''titel'', Str ''Faust''), (''tags'', Lst [Str ''classic'']),
       (''schlagw'' @ [CHR 0xF6] @ ''rter'', Lst [Str ''drama''])]]"

text \<open>
  The application after it has loaded the three books: the engine \<^verbatim>\<open>SearchEngine\<close>
  builds of them, no text in the search box, nothing selected, sorted by title.
\<close>

definition example_engine :: search_engine where
  "example_engine =
     \<lparr>df = \<lparr>columns = [''title'', ''author'', ''language'', ''tags'',
                        ''_title_lower'', ''_author_lower'', ''_tags_lower''],
            rows = map (lower_columns astype_str_pandas2)
                     (rows (by_label (DataFrame example_catalog)))\<rparr>,
      original_df = by_label (DataFrame example_catalog)\<rparr>"

definition example_app :: app where
  "example_app =
     BookSearchApp\<lparr>app_df := by_label (DataFrame example_catalog),
                   filtered_df := by_label (DataFrame example_catalog),
                   search_engine := Some example_engine\<rparr>"

section \<open>Pagination: results\<close>

lemma neg_div_eq:
  fixes n p :: int
  assumes "0 < p"
  shows "- ((- n) div p) = (n + p - 1) div p"
proof -
  have n: "n = p * (n div p) + n mod p" by simp
  show ?thesis
  proof (cases "n mod p = 0")
    case True
    then obtain k where k: "n = p * k" by (metis mod_eq_0_iff_dvd dvdE)
    have "(p * k + p - 1) div p = (p - 1 + k * p) div p" by (simp add: algebra_simps)
    also have "\<dots> = (p - 1) div p + k" using assms by (subst div_mult_self1) auto
    also have "\<dots> = k" using assms by (simp add: div_pos_pos_trivial)
    finally have a: "(p * k + p - 1) div p = k" .
    have "(- (p * k)) div p = (p * (- k)) div p" by simp
    also have "\<dots> = - k" using assms by (subst nonzero_mult_div_cancel_left) auto
    finally show ?thesis using a k by simp
  next
    case False
    have "(- n) div p = - (n div p) - 1"
      using False assms by (simp add: zdiv_zminus1_eq_if)
    moreover have "(n + p - 1) div p = n div p + 1"
    proof -
      have "n + p - 1 = (n mod p - 1) + (n div p + 1) * p" by (simp add: algebra_simps)
      then have "(n + p - 1) div p = ((n mod p - 1) + (n div p + 1) * p) div p" by (rule arg_cong)
      also have "\<dots> = (n mod p - 1) div p + (n div p + 1)"
        using assms by (subst div_mult_self1) auto
      also have "(n mod p - 1) div p = 0"
      proof -
        have "0 \<le> n mod p" "n mod p < p" using assms by auto
        with False have "0 \<le> n mod p - 1" "n mod p - 1 < p" by auto
        then show ?thesis by (simp add: div_pos_pos_trivial)
      qed
      finally show ?thesis by simp
    qed
    ultimately show ?thesis by simp
  qed
qed

lemma ceiling_div_formula:
  fixes n p :: int
  assumes "0 < p"
  shows "(n + p - 1) div p = \<lceil>real_of_int n / real_of_int p\<rceil>"
  using neg_div_eq [OF assms, of n] by (simp add: ceiling_divide_eq_div)

lemma py_slice_nat:
  "py_slice xs (int s) (int e) =
     take (min e (length xs) - min s (length xs)) (drop (min s (length xs)) xs)"
proof -
  have s: "min (int s) (int (length xs)) = int (min s (length xs))" by (simp add: min_def)
  have e: "min (int e) (int (length xs)) = int (min e (length xs))" by (simp add: min_def)
  have d: "nat (int (min e (length xs)) - int (min s (length xs)))
             = min e (length xs) - min s (length xs)"
    by arith
  have n: "\<not> int s < 0" "\<not> int e < 0" by simp_all
  show ?thesis
    unfolding py_slice_def Let_def by (simp only: n if_False s e d nat_int)
qed

lemma py_slice_page_nat:
  "py_slice xs (int i * int P) (min (int i * int P + int P) (int (length xs)))
         = take P (drop (i * P) xs)"
proof -
  have a: "int i * int P = int (i * P)" by simp
  have c: "int (i * P) + int P = int (i * P + P)" by simp
  have b: "min (int (i * P) + int P) (int (length xs)) = int (min (i * P + P) (length xs))"
    by (simp only: c of_nat_min)
  have "py_slice xs (int (i * P)) (int (min (i * P + P) (length xs))) = take P (drop (i * P) xs)"
  proof (cases "i * P < length xs")
    case True
    then have "min (min (i * P + P) (length xs)) (length xs) - min (i * P) (length xs)
                 = min P (length xs - i * P)"
      by (simp add: min_def) arith
    moreover have "take (min P (length (drop (i * P) xs))) (drop (i * P) xs)
                     = take P (drop (i * P) xs)"
      by (simp add: min_def)
    ultimately show ?thesis unfolding py_slice_nat using True by simp
  next
    case False
    then show ?thesis unfolding py_slice_nat by simp
  qed
  then show ?thesis by (simp only: a b)
qed

lemma concat_pages:
  "concat (map (\<lambda>i. take p (drop (i * p) xs)) [0..<k]) = take (k * p) xs"
proof (induction k)
  case 0
  show ?case by simp
next
  case (Suc k)
  have "Suc k * p = k * p + p" by simp
  then have "take (Suc k * p) xs = take (k * p) xs @ take p (drop (k * p) xs)"
    by (simp only: take_add)
  with Suc show ?case by simp
qed

lemma pages_cover:
  fixes n p :: int
  assumes "0 < p"
  shows "n \<le> (n + p - 1) div p * p"
proof -
  have "(n + p - 1) div p * p + (n + p - 1) mod p = n + p - 1"
    by (rule div_mult_mod_eq)
  moreover have "(n + p - 1) mod p < p" using assms by (rule pos_mod_bound)
  ultimately show ?thesis by arith
qed

text \<open>
  Claim C3, as the code has it: with a positive page size the page count is
  \<open>\<lceil>total / pageSize\<rceil>\<close> for every total; it is 0 when there is no record and at least 1
  exactly when there is one.
\<close>

theorem total_pages_is_ceiling:
  assumes "0 < results_per_page self"
  shows "\<exists>v. display_results self = Inr v
           \<and> total_pages v
               = \<lceil>real (length (rows (filtered_df self))) / real_of_int (results_per_page self)\<rceil>
           \<and> (1 \<le> total_pages v \<longleftrightarrow> rows (filtered_df self) \<noteq> [])"
proof (cases "rows (filtered_df self) = []")
  case True
  then show ?thesis by (simp add: display_results_def)
next
  case False
  let ?p = "results_per_page self"
  let ?n = "int (length (rows (filtered_df self)))"
  let ?t = "(?n + ?p - 1) div ?p"
  have n: "1 \<le> ?n" using False by (cases "rows (filtered_df self)") simp_all
  have c: "?t = \<lceil>real_of_int ?n / real_of_int ?p\<rceil>"
    using assms by (rule ceiling_div_formula)
  have "?p \<le> ?n + ?p - 1" using n by linarith
  then have "?p div ?p \<le> ?t"
    using assms by (rule zdiv_mono1)
  then have "1 \<le> ?t" using assms by simp
  with c False assms show ?thesis
    by (simp add: display_results_def Let_def)
qed

theorem total_pages_is_ceiling_witness:
  "(0::int) < results_per_page (BookSearchApp\<lparr>filtered_df :=
       \<lparr>columns = [''title''], rows = [\<lambda>c. Str ''a'', \<lambda>c. Str ''b'', \<lambda>c. Str ''c'']\<rparr>,
       results_per_page := 2\<rparr>) \<and>
   (\<exists>v. display_results (BookSearchApp\<lparr>filtered_df :=
       \<lparr>columns = [''title''], rows = [\<lambda>c. Str ''a'', \<lambda>c. Str ''b'', \<lambda>c. Str ''c'']\<rparr>,
       results_per_page := 2\<rparr>) = Inr v
      \<and> total_pages v = 2)"
proof -
  let ?a = "BookSearchApp\<lparr>filtered_df :=
       \<lparr>columns = [''title''], rows = [\<lambda>c. Str ''a'', \<lambda>c. Str ''b'', \<lambda>c. Str ''c'']\<rparr>,
       results_per_page := 2\<rparr>"
  have h: "(0::int) < results_per_page ?a" by simp
  have "\<lceil>(3::real) / 2\<rceil> = 2" by (simp add: ceiling_eq_iff)
  then show ?thesis
    using total_pages_is_ceiling [OF h] by auto
qed

text \<open>An application that has loaded nothing shows 0 pages.\<close>

theorem empty_result_has_zero_pages:
  "pages (display_results BookSearchApp) = Some 0"
  by (simp add: pages_def display_results_def BookSearchApp_def DataFrame_empty_def by_label_def)

text \<open>
  Claim C4: with a positive page size, the pages shown for \<^verbatim>\<open>current_page\<close> 0 to
  \<^verbatim>\<open>total_pages - 1\<close>, one after the other, are the rows of the result set; and five
  records with page size 2 on page 2 show the fifth record alone, of 3 pages.
\<close>

theorem pagination_round_trip:
  assumes "0 < results_per_page self"
  shows "(\<exists>n. (\<forall>i. pages (display_results (self\<lparr>current_page := i\<rparr>)) = Some n)
           \<and> concat (map (\<lambda>i. shown (display_results (self\<lparr>current_page := int i\<rparr>)))
                  [0..<nat n]) = rows (filtered_df self))
         \<and> display_results (self\<lparr>filtered_df := \<lparr>columns = cs, rows = [r1, r2, r3, r4, r5]\<rparr>,
                                  results_per_page := 2, current_page := 2\<rparr>)
             = Inr \<lparr>page_df = [r5], total_pages = 3\<rparr>"
proof
  show "display_results (self\<lparr>filtered_df := \<lparr>columns = cs, rows = [r1, r2, r3, r4, r5]\<rparr>,
                                  results_per_page := 2, current_page := 2\<rparr>)
          = Inr \<lparr>page_df = [r5], total_pages = 3\<rparr>"
    by (simp add: display_results_def py_slice_def)
next
  let ?xs = "rows (filtered_df self)"
  let ?p = "results_per_page self"
  let ?page = "\<lambda>i. display_results (self\<lparr>current_page := i\<rparr>)"
  show "\<exists>n. (\<forall>i. pages (?page i) = Some n)
           \<and> concat (map (\<lambda>i. shown (?page (int i))) [0..<nat n]) = ?xs"
  proof (cases "?xs = []")
    case True
    then have "\<forall>i. pages (?page i) = Some 0"
      by (simp add: display_results_def pages_def)
    moreover have "concat (map (\<lambda>i. shown (?page (int i))) [0..<nat 0]) = ?xs"
      using True by simp
    ultimately show ?thesis by blast
  next
    case False
    let ?n = "int (length ?xs)"
    let ?t = "(?n + ?p - 1) div ?p"
    obtain P where P: "?p = int P" "0 < P"
      using assms by (metis zero_less_imp_eq_int)
    have pg: "\<forall>i. pages (?page i) = Some ?t"
      using False assms by (simp add: display_results_def pages_def Let_def)
    have sh: "shown (?page (int i)) = take P (drop (i * P) ?xs)" for i
      using False assms py_slice_page_nat [of ?xs i P]
      by (simp add: display_results_def shown_def Let_def P)
    have "?n \<le> ?t * ?p" using assms by (rule pages_cover)
    moreover have "0 \<le> ?t" using assms by (simp add: pos_imp_zdiv_nonneg_iff)
    ultimately have "length ?xs \<le> nat ?t * P"
      using P by (metis nat_int nat_mono nat_mult_distrib)
    then have "take (nat ?t * P) ?xs = ?xs" by simp
    then have "concat (map (\<lambda>i. shown (?page (int i))) [0..<nat ?t]) = ?xs"
      by (simp only: sh concat_pages)
    with pg show ?thesis by blast
  qed
qed

theorem pagination_round_trip_witness:
  "(0::int) < results_per_page (BookSearchApp\<lparr>filtered_df :=
       \<lparr>columns = [''title''], rows = [\<lambda>c. Str ''a'', \<lambda>c. Str ''b'', \<lambda>c. Str ''c'']\<rparr>,
       results_per_page := 2\<rparr>) \<and>
   concat (map (\<lambda>i. shown (display_results (BookSearchApp\<lparr>filtered_df :=
       \<lparr>columns = [''title''], rows = [\<lambda>c. Str ''a'', \<lambda>c. Str ''b'', \<lambda>c. Str ''c'']\<rparr>,
       results_per_page := 2, current_page := int i\<rparr>)))
      [0..<2]) = [\<lambda>c. Str ''a'', \<lambda>c. Str ''b'', \<lambda>c. Str ''c'']"
proof -
  let ?a = "BookSearchApp\<lparr>filtered_df :=
       \<lparr>columns = [''title''], rows = [\<lambda>c. Str ''a'', \<lambda>c. Str ''b'', \<lambda>c. Str ''c'']\<rparr>,
       results_per_page := 2\<rparr>"
  have h: "(0::int) < results_per_page ?a" by simp
  have p: "pages (display_results (?a\<lparr>current_page := 0\<rparr>)) = Some 2"
    by (simp add: display_results_def pages_def)
  from pagination_round_trip [OF h]
  obtain n where n: "\<forall>i. pages (display_results (?a\<lparr>current_page := i\<rparr>)) = Some n"
    and c: "concat (map (\<lambda>i. shown (display_results (?a\<lparr>current_page := int i\<rparr>))) [0..<nat n])
              = rows (filtered_df ?a)"
    by blast
  from n p have "n = 2" by (metis option.inject)
  with c h show ?thesis by simp
qed

section \<open>The loader: results\<close>

lemma set_positions: "set (positions ls c) = {i. i < length ls \<and> ls ! i = c}"
  by (auto simp add: positions_def)

lemma positions_Nil_iff: "positions ls c = [] \<longleftrightarrow> c \<notin> set ls"
proof -
  have "positions ls c = [] \<longleftrightarrow> set (positions ls c) = {}" by simp
  also have "\<dots> \<longleftrightarrow> c \<notin> set ls"
    unfolding set_positions by (auto simp add: in_set_conv_nth)
  finally show ?thesis .
qed

lemma nth_map_at_neq: "k \<noteq> i \<Longrightarrow> map_at i g r ! k = r ! k"
  by (simp add: map_at_def)

lemma nth_map_at_eq: "i < length r \<Longrightarrow> map_at i g r ! i = g (r ! i)"
  by (simp add: map_at_def)

lemma nth_fold_map_at: "k \<notin> set ps \<Longrightarrow> fold (\<lambda>i. map_at i g) ps r ! k = r ! k"
proof (induction ps arbitrary: r)
  case Nil
  show ?case by simp
next
  case (Cons p ps)
  then have "fold (\<lambda>i. map_at i g) ps (map_at p g r) ! k = map_at p g r ! k" by simp
  also have "\<dots> = r ! k" using Cons.prems by (simp add: nth_map_at_neq)
  finally show ?case by simp
qed

lemma cells_normalize_columns: "cells (normalize_columns f) = cells f"
  by (simp add: normalize_columns_def rename_def)

lemma labels_normalize_columns:
  "labels (normalize_columns f) =
     (if ''titel'' \<in> set (labels f) then map (new_label legacy_names) (labels f) else labels f)"
  by (simp add: normalize_columns_def rename_def)

lemma new_label_not_legacy:
  "new_label legacy_names c \<notin> fst ` set legacy_names"
  by (simp add: new_label_def legacy_names_def)

lemma length_rows_DataFrame: "r \<in> set (cells (DataFrame data)) \<Longrightarrow> length r = length (labels (DataFrame data))"
  by (auto simp add: DataFrame_def Let_def)

lemma try_block_without_tags:
  assumes "''tags'' \<notin> set (labels (normalize_columns (DataFrame data)))"
  shows "try_block (Parsed data) = Inl (KeyError ''tags'')"
  using assms by (simp add: try_block_def Let_def positions_Nil_iff [symmetric])

lemma try_block_with_tags:
  assumes "''tags'' \<in> set (labels (normalize_columns (DataFrame data)))"
  shows "\<exists>d. try_block (Parsed data) = Inr d
           \<and> labels d = labels (normalize_columns (DataFrame data))
           \<and> length (cells d) = length data
           \<and> (\<forall>k. labels d ! k \<noteq> ''tags'' \<longrightarrow>
                 map (\<lambda>r. r ! k) (cells d) = map (\<lambda>r. r ! k) (cells (DataFrame data)))"
proof -
  let ?N = "normalize_columns (DataFrame data)"
  let ?ps = "positions (labels ?N) ''tags''"
  have len: "length (cells ?N) = length data"
    by (simp add: cells_normalize_columns DataFrame_def Let_def)
  have tags: "labels ?N ! i = ''tags''" if "i \<in> set ?ps" for i
    using that by (simp add: set_positions)
  from assms have ne: "?ps \<noteq> []" by (simp add: positions_Nil_iff)
  show ?thesis
  proof (cases ?ps)
    case Nil
    with ne show ?thesis by simp
  next
    case (Cons i ps')
    show ?thesis
    proof (cases ps')
      case Nil
      let ?d = "?N\<lparr>cells := map (map_at i (\<lambda>x. case x of Lst xs \<Rightarrow> x | _ \<Rightarrow> Lst [])) (cells ?N)\<rparr>"
      from Cons Nil have t: "try_block (Parsed data) = Inr ?d"
        by (simp add: try_block_def Let_def)
      have "map (\<lambda>r. r ! k) (cells ?d) = map (\<lambda>r. r ! k) (cells (DataFrame data))"
        if "labels ?d ! k \<noteq> ''tags''" for k
      proof -
        from that tags [of i] Cons have "k \<noteq> i" by auto
        then show ?thesis
          by (simp add: o_def nth_map_at_neq cells_normalize_columns)
      qed
      with t len show ?thesis by (intro exI [of _ ?d]) simp
    next
      case (Cons j others)
      let ?d = "?N\<lparr>cells := map (\<lambda>r. fold (\<lambda>k. map_at k (\<lambda>x. NaN)) (i # j # others) r) (cells ?N)\<rparr>"
      from \<open>?ps = i # ps'\<close> Cons have ps: "?ps = i # j # others" by simp
      then have t: "try_block (Parsed data) = Inr ?d"
        by (simp add: try_block_def Let_def)
      have "map (\<lambda>r. r ! k) (cells ?d) = map (\<lambda>r. r ! k) (cells (DataFrame data))"
        if "labels ?d ! k \<noteq> ''tags''" for k
      proof -
        from that tags [of k] ps have "k \<notin> set (i # j # others)" by auto
        then have "fold (\<lambda>k. map_at k (\<lambda>x. NaN)) (i # j # others) r ! k = r ! k" for r :: "pyobj list"
          by (rule nth_fold_map_at)
        then show ?thesis
          by (simp add: o_def cells_normalize_columns del: fold_simps)
      qed
      with t len show ?thesis by (intro exI [of _ ?d]) simp
    qed
  qed
qed

text \<open>
  Claim C10: \<^verbatim>\<open>get_unique_values\<close> returns the empty list, and raises nothing, for a
  field name that is not a column of the catalog.
\<close>

theorem get_unique_values_missing_column:
  assumes "column \<notin> set (columns d)"
  shows "get_unique_values d column = Inr []"
  using assms by (simp add: get_unique_values_def)

theorem get_unique_values_missing_column_witness:
  "''year'' \<notin> set (columns (by_label (DataFrame example_catalog)))
   \<and> get_unique_values (by_label (DataFrame example_catalog)) ''year'' = Inr []"
proof -
  have h: "''year'' \<notin> set (columns (by_label (DataFrame example_catalog)))"
    by (simp add: by_label_def DataFrame_def example_catalog_def first_seen_def)
  from get_unique_values_missing_column [OF h] h show ?thesis by simp
qed

text \<open>
  Claim C5, as the code has it: when \<^verbatim>\<open>open\<close> or \<^verbatim>\<open>json.load\<close> raises, or the
  \<^verbatim>\<open>try\<close> block raises on the parsed document, \<^verbatim>\<open>load_json_data\<close> returns the empty
  table and raises nothing; it prints one line, which is the not-found line for
  \<^verbatim>\<open>FileNotFoundError\<close>, the invalid-JSON line for \<^verbatim>\<open>JSONDecodeError\<close> and the line
  with the exception for any other one. The kind of failure is in the printed line
  only: the caller gets the same empty table for every kind.
\<close>

theorem load_failure_result:
  "load_json_data file_path (Raises e) =
      ([case e of FileNotFoundError \<Rightarrow> File_not_found file_path
                | JSONDecodeError \<Rightarrow> Invalid_JSON file_path
                | _ \<Rightarrow> Error_loading_data e], DataFrame_empty)
   \<and> (try_block (Parsed data) = Inl e \<longrightarrow>
        load_json_data file_path (Parsed data) = ([Error_loading_data e], DataFrame_empty))"
proof
  show "load_json_data file_path (Raises e) =
      ([case e of FileNotFoundError \<Rightarrow> File_not_found file_path
                | JSONDecodeError \<Rightarrow> Invalid_JSON file_path
                | _ \<Rightarrow> Error_loading_data e], DataFrame_empty)"
    by (cases e) (simp_all add: load_json_data_def try_block_def)
next
  show "try_block (Parsed data) = Inl e \<longrightarrow>
        load_json_data file_path (Parsed data) = ([Error_loading_data e], DataFrame_empty)"
  proof
    assume a: "try_block (Parsed data) = Inl e"
    have "e = KeyError ''tags''"
    proof (cases "''tags'' \<in> set (labels (normalize_columns (DataFrame data)))")
      case True
      from try_block_with_tags [OF True] a show ?thesis by auto
    next
      case False
      from try_block_without_tags [OF False] a show ?thesis by simp
    qed
    with a show "load_json_data file_path (Parsed data)
                   = ([Error_loading_data e], DataFrame_empty)"
      by (simp add: load_json_data_def)
  qed
qed

theorem load_failure_result_witness:
  "try_block (Parsed []) = Inl (KeyError ''tags'')
   \<and> load_json_data ''booklist.json'' (Parsed [])
       = ([Error_loading_data (KeyError ''tags'')], DataFrame_empty)
   \<and> load_json_data ''booklist.json'' (Raises FileNotFoundError)
       = ([File_not_found ''booklist.json''], DataFrame_empty)"
proof -
  have h: "try_block (Parsed []) = Inl (KeyError ''tags'')"
    by (rule try_block_without_tags)
       (simp add: normalize_columns_def DataFrame_def first_seen_def)
  from load_failure_result [of "''booklist.json''" "KeyError ''tags''" "[]"] h
  have "load_json_data ''booklist.json'' (Parsed [])
       = ([Error_loading_data (KeyError ''tags'')], DataFrame_empty)" by simp
  moreover from load_failure_result [of "''booklist.json''" FileNotFoundError "[]"]
  have "load_json_data ''booklist.json'' (Raises FileNotFoundError)
       = ([File_not_found ''booklist.json''], DataFrame_empty)" by simp
  ultimately show ?thesis using h by simp
qed

text \<open>A missing file and malformed JSON give the caller the same value.\<close>

theorem load_failure_same_return_value:
  "snd (load_json_data ''booklist.json'' (Raises FileNotFoundError))
     = snd (load_json_data ''booklist.json'' (Raises JSONDecodeError))"
  by (simp add: load_json_data_def try_block_def)

text \<open>
  When one column has the label \<^verbatim>\<open>tags\<close> after the renaming, every cell of that column
  in the loaded table is a list: the list the record had, or the empty list.
\<close>

lemma single_tags_column_holds_lists:
  assumes "positions (labels (normalize_columns (DataFrame data))) ''tags'' = [i]"
  shows "\<exists>d. load_json_data file_path (Parsed data) = ([], d)
           \<and> map (\<lambda>r. r ! i) (cells d)
               = map (\<lambda>r. Lst (list_or_empty (r ! i))) (cells (DataFrame data))"
proof -
  let ?N = "normalize_columns (DataFrame data)"
  let ?g = "\<lambda>x. case x of Lst xs \<Rightarrow> x | _ \<Rightarrow> Lst []"
  let ?d = "?N\<lparr>cells := map (map_at i ?g) (cells ?N)\<rparr>"
  have g: "?g x = Lst (list_or_empty x)" for x
    by (cases x) (simp_all add: list_or_empty_def)
  from assms have "i \<in> set (positions (labels ?N) ''tags'')" by simp
  then have i: "i < length (labels (DataFrame data))"
    by (simp add: set_positions labels_normalize_columns split: if_splits)
  have "map_at i ?g r ! i = Lst (list_or_empty (r ! i))"
    if "r \<in> set (cells (DataFrame data))" for r
    using length_rows_DataFrame [OF that] i by (simp add: nth_map_at_eq g)
  then have "map (\<lambda>r. r ! i) (cells ?d)
      = map (\<lambda>r. Lst (list_or_empty (r ! i))) (cells (DataFrame data))"
    by (simp add: o_def cells_normalize_columns)
  moreover from assms have "load_json_data file_path (Parsed data) = ([], ?d)"
    by (simp add: load_json_data_def try_block_def Let_def)
  ultimately show ?thesis by (intro exI [of _ ?d]) simp
qed

text \<open>
  A file in which no object has tags is not loaded at all: its records are dropped,
  not given empty lists of tags.
\<close>

lemma records_without_tags_are_dropped:
  "load_json_data ''booklist.json''
     (Parsed [[(''title'', Str ''Dune''), (''author'', Str ''Herbert'')]])
     = ([Error_loading_data (KeyError ''tags'')], DataFrame_empty)"
  by (simp add: load_json_data_def try_block_def normalize_columns_def DataFrame_def
      first_seen_def positions_def Let_def)

text \<open>
  Claim C6 says that in every catalog the loader returns the tags of every record are
  a list. The loader, whose comment reads ``Ensure tags is always a list'', does not
  ensure it: for a book under the German keys that has both \<^verbatim>\<open>tags\<close> and the legacy
  key for them, it returns, without an error, a table with two columns \<^verbatim>\<open>tags\<close> whose
  cells are the missing value and not lists.
\<close>

theorem duplicate_tags_columns_hold_no_lists:
  "load_json_data ''booklist.json'' (Parsed mixed_catalog)
     = ([], \<lparr>labels = [''title'', ''tags'', ''tags''], cells = [[Str ''Faust'', NaN, NaN]]\<rparr>)"
  by (simp add: load_json_data_def try_block_def normalize_columns_def rename_def
      DataFrame_def first_seen_def positions_def map_at_def new_label_def legacy_names_def
      mixed_catalog_def Let_def)

text \<open>
  Claim C8, as the code has it: when some object of the file has the key \<^verbatim>\<open>titel\<close>, the
  loader renames every legacy key that is present to its canonical counterpart, and no
  legacy key is left; when no object has the key \<^verbatim>\<open>titel\<close>, no key is renamed. It
  returns the table under these labels, the cells of every column other than \<^verbatim>\<open>tags\<close>
  as they are in the file, when one of the labels is \<^verbatim>\<open>tags\<close>; when none is, it
  returns the empty table and prints the error.
\<close>

theorem legacy_keys_renamed_when_titel_present:
  "labels (normalize_columns (DataFrame data))
     = (if ''titel'' \<in> set (labels (DataFrame data))
        then map (new_label legacy_names) (labels (DataFrame data))
        else labels (DataFrame data))
   \<and> (''titel'' \<in> set (labels (DataFrame data)) \<longrightarrow>
        set (labels (normalize_columns (DataFrame data))) \<inter> fst ` set legacy_names = {})
   \<and> (''tags'' \<notin> set (labels (normalize_columns (DataFrame data))) \<longrightarrow>
        load_json_data file_path (Parsed data)
          = ([Error_loading_data (KeyError ''tags'')], DataFrame_empty))
   \<and> (''tags'' \<in> set (labels (normalize_columns (DataFrame data))) \<longrightarrow>
        (\<exists>d. load_json_data file_path (Parsed data) = ([], d)
           \<and> labels d = labels (normalize_columns (DataFrame data))
           \<and> length (cells d) = length data
           \<and> (\<forall>k. labels d ! k \<noteq> ''tags'' \<longrightarrow>
                 map (\<lambda>r. r ! k) (cells d) = map (\<lambda>r. r ! k) (cells (DataFrame data)))))"
proof (intro conjI impI)
  show "labels (normalize_columns (DataFrame data))
     = (if ''titel'' \<in> set (labels (DataFrame data))
        then map (new_label legacy_names) (labels (DataFrame data))
        else labels (DataFrame data))"
    by (rule labels_normalize_columns)
next
  assume "''titel'' \<in> set (labels (DataFrame data))"
  then show "set (labels (normalize_columns (DataFrame data))) \<inter> fst ` set legacy_names = {}"
    using new_label_not_legacy by (auto simp add: labels_normalize_columns)
next
  assume "''tags'' \<notin> set (labels (normalize_columns (DataFrame data)))"
  then have "try_block (Parsed data) = Inl (KeyError ''tags'')"
    by (rule try_block_without_tags)
  then show "load_json_data file_path (Parsed data)
          = ([Error_loading_data (KeyError ''tags'')], DataFrame_empty)"
    by (simp add: load_json_data_def)
next
  assume "''tags'' \<in> set (labels (normalize_columns (DataFrame data)))"
  from try_block_with_tags [OF this] obtain d
    where d: "try_block (Parsed data) = Inr d"
      and rest: "labels d = labels (normalize_columns (DataFrame data))"
        "length (cells d) = length data"
        "\<forall>k. labels d ! k \<noteq> ''tags'' \<longrightarrow>
                 map (\<lambda>r. r ! k) (cells d) = map (\<lambda>r. r ! k) (cells (DataFrame data))"
    by blast
  from d have "load_json_data file_path (Parsed data) = ([], d)"
    by (simp add: load_json_data_def)
  with rest show "\<exists>d. load_json_data file_path (Parsed data) = ([], d)
           \<and> labels d = labels (normalize_columns (DataFrame data))
           \<and> length (cells d) = length data
           \<and> (\<forall>k. labels d ! k \<noteq> ''tags'' \<longrightarrow>
                 map (\<lambda>r. r ! k) (cells d) = map (\<lambda>r. r ! k) (cells (DataFrame data)))"
    by (intro exI [of _ d]) simp
qed

theorem legacy_keys_renamed_witness:
  "''titel'' \<in> set (labels (DataFrame legacy_catalog))
   \<and> ''tags'' \<in> set (labels (normalize_columns (DataFrame legacy_catalog)))
   \<and> (\<exists>d. load_json_data ''booklist.json'' (Parsed legacy_catalog) = ([], d)
         \<and> labels d = [''title'', ''author'', ''language'', ''tags'']
         \<and> map (\<lambda>r. r ! 1) (cells d) = [Str ''Goethe''])"
proof -
  have keys: "labels (DataFrame legacy_catalog)
                = [''titel'', ''autor'', ''sprache'', ''schlagw'' @ [CHR 0xF6] @ ''rter'']"
    by (simp add: DataFrame_def first_seen_def legacy_catalog_def)
  have t: "''titel'' \<in> set (labels (DataFrame legacy_catalog))" by (simp add: keys)
  have new: "labels (normalize_columns (DataFrame legacy_catalog))
                = [''title'', ''author'', ''language'', ''tags'']"
    by (simp add: labels_normalize_columns keys new_label_def legacy_names_def)
  then have g: "''tags'' \<in> set (labels (normalize_columns (DataFrame legacy_catalog)))"
    by simp
  from legacy_keys_renamed_when_titel_present [of legacy_catalog "''booklist.json''"] g
  obtain d where l: "load_json_data ''booklist.json'' (Parsed legacy_catalog) = ([], d)"
    and ld: "labels d = labels (normalize_columns (DataFrame legacy_catalog))"
    and c: "\<forall>k. labels d ! k \<noteq> ''tags'' \<longrightarrow>
              map (\<lambda>r. r ! k) (cells d) = map (\<lambda>r. r ! k) (cells (DataFrame legacy_catalog))"
    by blast
  from ld new have ld': "labels d = [''title'', ''author'', ''language'', ''tags'']" by simp
  then have "labels d ! 1 \<noteq> ''tags''" by simp
  with c have "map (\<lambda>r. r ! 1) (cells d) = map (\<lambda>r. r ! 1) (cells (DataFrame legacy_catalog))"
    by blast
  also have "\<dots> = [Str ''Goethe'']"
    by (simp add: DataFrame_def first_seen_def legacy_catalog_def)
  finally have "map (\<lambda>r. r ! 1) (cells d) = [Str ''Goethe'']" .
  with l ld' have "\<exists>d. load_json_data ''booklist.json'' (Parsed legacy_catalog) = ([], d)
         \<and> labels d = [''title'', ''author'', ''language'', ''tags'']
         \<and> map (\<lambda>r. r ! 1) (cells d) = [Str ''Goethe'']"
    by (intro exI [of _ d]) simp
  with t g show ?thesis by (intro conjI)
qed

text \<open>
  A file with \<^verbatim>\<open>autor\<close> and without \<^verbatim>\<open>titel\<close> keeps the column \<^verbatim>\<open>autor\<close>.
\<close>

theorem legacy_key_kept_without_titel:
  "labels (snd (load_json_data ''booklist.json''
        (Parsed [[(''title'', Str ''Dune''), (''autor'', Str ''Herbert''), (''tags'', Lst [])]])))
   = [''title'', ''autor'', ''tags'']"
  by (simp add: load_json_data_def try_block_def normalize_columns_def DataFrame_def
      first_seen_def positions_def Let_def)

section \<open>The text search: results\<close>

lemma isspace_lower_char: "py_isspace (lower_char c) = py_isspace c"
  by (auto simp add: py_isspace_def lower_char_def Let_def)

lemma strip_lower_commute: "py_strip (py_lower s) = py_lower (py_strip s)"
proof -
  have "py_isspace \<circ> lower_char = py_isspace"
    by (rule ext) (simp add: isspace_lower_char)
  then show ?thesis
    by (simp add: py_strip_def py_lower_def dropWhile_map rev_map)
qed

lemma zip_map_self: "zip xs (map f xs) = map (\<lambda>x. (x, f x)) xs"
  by (induction xs) simp_all

lemma setitem_apply:
  "setitem d c (map g (rows d))
     = \<lparr>columns = (if c \<in> set (columns d) then columns d else columns d @ [c]),
        rows = map (\<lambda>r. r(c := g r)) (rows d)\<rparr>"
  by (simp add: setitem_def zip_map_self o_def)

lemma zip_map_both: "zip (map a xs) (map b xs) = map (\<lambda>x. (a x, b x)) xs"
  by (induction xs) simp_all

lemma SearchEngine_result:
  "SearchEngine a d =
     (if ''title'' \<notin> set (columns d) then Inl (KeyError ''title'')
      else if ''author'' \<notin> set (columns d) then Inl (KeyError ''author'')
      else if ''tags'' \<notin> set (columns d) then Inl (KeyError ''tags'')
      else Inr \<lparr>df = \<lparr>columns = columns (setitem (setitem (setitem d ''_title_lower'' [])
                                     ''_author_lower'' []) ''_tags_lower'' []),
                       rows = map (lower_columns a) (rows d)\<rparr>,
                original_df = d\<rparr>)"
  by (simp add: SearchEngine_def getitem_def and_then_def setitem_def zip_map_both
      zip_map_self lower_columns_def o_def)

lemma filter_by_flags: "map fst (filter snd (zip xs (map p xs))) = filter p xs"
  by (induction xs) simp_all

lemma boolean_index_map: "boolean_index d (map p (rows d)) = d\<lparr>rows := filter p (rows d)\<rparr>"
  by (simp add: boolean_index_def filter_by_flags)

lemma record_matches_lower_columns:
  "record_matches q (lower_columns a r) = record_matches q r"
  by (simp add: record_matches_def lower_columns_def)

lemma lower_columns_cells:
  "lower_columns a r ''_title_lower'' = str_lower (a (r ''title''))"
  "lower_columns a r ''_author_lower'' = str_lower (a (r ''author''))"
  "lower_columns a r ''_tags_lower''
     = Str (join '' '' (map (\<lambda>tag. py_lower (py_str tag)) (list_or_empty (r ''tags''))))"
  by (simp_all add: lower_columns_def)

lemma SearchEngine_Inr:
  assumes "SearchEngine a d = Inr e"
  shows "rows (df e) = map (lower_columns a) (rows d)"
    and "''_title_lower'' \<in> set (columns (df e))"
    and "''_author_lower'' \<in> set (columns (df e))"
    and "''_tags_lower'' \<in> set (columns (df e))"
    and "set (columns d) \<subseteq> set (columns (df e))"
    and "''title'' \<in> set (columns d)"
    and "''author'' \<in> set (columns d)"
    and "''tags'' \<in> set (columns d)"
    and "original_df e = d"
    and "set (columns (df e))
           = set (columns d) \<union> {''_title_lower'', ''_author_lower'', ''_tags_lower''}"
  using assms unfolding SearchEngine_result
  by (auto simp add: setitem_def split: if_splits)

lemma strip_Nil: "py_strip [] = []"
  by (simp add: py_strip_def)

text \<open>
  What \<^verbatim>\<open>search_books\<close> keeps of the engine's copy, for every conversion of the cells:
  the rows in one of whose three lower-cased columns the query occurs.
\<close>

lemma search_books_result:
  assumes "SearchEngine a d = Inr e" and "py_strip query \<noteq> []"
  shows "search_books e query =
           Inr ((df e)\<lparr>rows := filter
                  (\<lambda>r. (case r ''_title_lower'' of
                           Str s \<Rightarrow> sublist (py_strip (py_lower query)) s | _ \<Rightarrow> False)
                     \<or> (case r ''_author_lower'' of
                           Str s \<Rightarrow> sublist (py_strip (py_lower query)) s | _ \<Rightarrow> False)
                     \<or> (case r ''_tags_lower'' of
                           Str s \<Rightarrow> sublist (py_strip (py_lower query)) s | _ \<Rightarrow> False))
                  (map (lower_columns a) (rows d))\<rparr>)"
proof -
  let ?q = "py_strip (py_lower query)"
  let ?p = "\<lambda>r. (case r ''_title_lower'' of Str s \<Rightarrow> sublist ?q s | _ \<Rightarrow> False)
              \<or> (case r ''_author_lower'' of Str s \<Rightarrow> sublist ?q s | _ \<Rightarrow> False)
              \<or> (case r ''_tags_lower'' of Str s \<Rightarrow> sublist ?q s | _ \<Rightarrow> False)"
  from assms(2) have q: "query \<noteq> []" using strip_Nil by auto
  have "search_books e query = Inr (boolean_index (df e) (map ?p (rows (df e))))"
    using q assms(2) SearchEngine_Inr(2-4) [OF assms(1)]
    by (simp add: search_books_def getitem_def and_then_def str_contains_def series_or_def
        zip_map_both o_def Let_def)
  also have "\<dots> = Inr ((df e)\<lparr>rows := filter ?p (rows (df e))\<rparr>)"
    by (simp only: boolean_index_map)
  finally show ?thesis
    by (simp only: SearchEngine_Inr(1) [OF assms(1)])
qed

lemma search_books_columns:
  assumes "SearchEngine a d = Inr e"
  shows "\<exists>result. search_books e query = Inr result \<and> columns result = columns (df e)"
proof (cases "py_strip query = []")
  case True
  then show ?thesis by (simp add: search_books_def)
next
  case False
  from search_books_result [OF assms False] show ?thesis by simp
qed

text \<open>
  On a book record, whose title and author are strings and whose tags are strings, the
  three lower-cased columns hold the lower-cased title, the lower-cased author and the
  lower-cased tags joined by spaces, whatever the conversion does with other cells.
\<close>

lemma book_record_lower_columns:
  assumes "astype_str_contract a" and "book_record r"
  shows "((case lower_columns a r ''_title_lower'' of Str s \<Rightarrow> sublist q s | _ \<Rightarrow> False)
          \<or> (case lower_columns a r ''_author_lower'' of Str s \<Rightarrow> sublist q s | _ \<Rightarrow> False)
          \<or> (case lower_columns a r ''_tags_lower'' of Str s \<Rightarrow> sublist q s | _ \<Rightarrow> False))
         = record_matches q r"
proof -
  from assms(2) obtain t u where t: "r ''title'' = Str t" and u: "r ''author'' = Str u"
    and tags: "list_all is_Str (list_or_empty (r ''tags''))"
    by (auto simp add: book_record_def is_Str_def split: pyobj.splits)
  from assms(1) have a: "a (Str s) = Str s" for s
    by (simp add: astype_str_contract_def)
  have "py_str x = str_of x" if "is_Str x" for x
    using that by (cases x) (simp_all add: is_Str_def py_str_def str_of_def)
  with tags have m: "map (\<lambda>tag. py_lower (py_str tag)) (list_or_empty (r ''tags''))
                  = map (\<lambda>tag. py_lower (str_of tag)) (list_or_empty (r ''tags''))"
    by (simp add: list_all_iff)
  have s: "str_of (Str x) = x" for x by (simp add: str_of_def)
  show ?thesis
    by (simp add: lower_columns_cells record_matches_def t u a str_lower_def m s)
qed

text \<open>
  Claim C1: for a catalog of book records (title and author strings, tags strings) and
  a query that is not empty after trimming, \<^verbatim>\<open>search_books\<close> returns the records of
  the catalog that match the trimmed, lower-cased query, in the order of the catalog
  (each with the three lower-cased columns of the engine's copy); a record of the
  catalog is in the result exactly when the query occurs in its lower-cased title, its
  lower-cased author or its space-joined lower-cased tags.
\<close>

theorem text_search_returns_matching_records:
  assumes "astype_str_contract astype_str"
    and "SearchEngine astype_str catalog = Inr engine"
    and "py_strip query \<noteq> []"
    and "\<forall>r \<in> set (rows catalog). book_record r"
  shows "\<exists>result. search_books engine query = Inr result
           \<and> rows result
               = map (lower_columns astype_str)
                   (filter (record_matches (py_lower (py_strip query))) (rows catalog))
           \<and> (\<forall>r \<in> set (rows catalog).
                 lower_columns astype_str r \<in> set (rows result)
                   \<longleftrightarrow> record_matches (py_lower (py_strip query)) r)"
proof -
  let ?q = "py_lower (py_strip query)"
  let ?l = "lower_columns astype_str"
  let ?p = "\<lambda>r. (case r ''_title_lower'' of Str s \<Rightarrow> sublist ?q s | _ \<Rightarrow> False)
              \<or> (case r ''_author_lower'' of Str s \<Rightarrow> sublist ?q s | _ \<Rightarrow> False)
              \<or> (case r ''_tags_lower'' of Str s \<Rightarrow> sublist ?q s | _ \<Rightarrow> False)"
  let ?result = "(df engine)\<lparr>rows := map ?l (filter (record_matches ?q) (rows catalog))\<rparr>"
  have "filter ?p (map ?l (rows catalog)) = map ?l (filter (?p \<circ> ?l) (rows catalog))"
    by (simp only: filter_map)
  also have "filter (?p \<circ> ?l) (rows catalog) = filter (record_matches ?q) (rows catalog)"
  proof (rule filter_cong [OF refl])
    fix r assume "r \<in> set (rows catalog)"
    with assms(4) have "book_record r" by blast
    with assms(1) show "(?p \<circ> ?l) r = record_matches ?q r"
      unfolding o_def by (rule book_record_lower_columns)
  qed
  finally have "filter ?p (map ?l (rows catalog))
                  = map ?l (filter (record_matches ?q) (rows catalog))" .
  with search_books_result [OF assms(2,3), unfolded strip_lower_commute]
  have s: "search_books engine query = Inr ?result" by simp
  have "?l r \<in> set (rows ?result) \<longleftrightarrow> record_matches ?q r"
    if r: "r \<in> set (rows catalog)" for r
  proof
    assume "?l r \<in> set (rows ?result)"
    then obtain r' where r': "record_matches ?q r'" "?l r' = ?l r"
      by auto
    from r'(1) have "record_matches ?q (?l r')"
      by (simp only: record_matches_lower_columns)
    with r'(2) show "record_matches ?q r"
      by (simp only: record_matches_lower_columns)
  next
    assume "record_matches ?q r"
    with r show "?l r \<in> set (rows ?result)" by simp
  qed
  with s show ?thesis by simp
qed

theorem text_search_witness:
  "\<exists>engine result.
      astype_str_contract astype_str_pandas2
      \<and> SearchEngine astype_str_pandas2 (by_label (DataFrame dune_catalog)) = Inr engine
      \<and> py_strip '' Dune '' \<noteq> []
      \<and> list_all book_record (rows (by_label (DataFrame dune_catalog)))
      \<and> search_books engine '' Dune '' = Inr result
      \<and> map (\<lambda>r. r ''title'') (rows result) = [Str ''Dune'', Str ''dune guide'']"
proof -
  let ?catalog = "by_label (DataFrame dune_catalog)"
  have c: "astype_str_contract astype_str_pandas2"
    by (simp add: astype_str_contract_def astype_str_pandas2_def py_str_def)
  have "\<exists>engine. SearchEngine astype_str_pandas2 ?catalog = Inr engine"
    by (simp add: SearchEngine_result by_label_def DataFrame_def first_seen_def
        dune_catalog_def)
  then obtain engine where e: "SearchEngine astype_str_pandas2 ?catalog = Inr engine"
    by blast
  have q: "py_strip '' Dune '' \<noteq> []" by code_simp
  have b: "list_all book_record (rows ?catalog)" by code_simp
  then have b': "\<forall>r \<in> set (rows ?catalog). book_record r" by (simp only: list_all_iff)
  from text_search_returns_matching_records [OF c e q b'] obtain result
    where s: "search_books engine '' Dune '' = Inr result"
      and r: "rows result = map (lower_columns astype_str_pandas2)
                (filter (record_matches (py_lower (py_strip '' Dune ''))) (rows ?catalog))"
    by blast
  have "map (\<lambda>r. r ''title'') (rows result)
          = map (\<lambda>r. r ''title'')
              (filter (record_matches (py_lower (py_strip '' Dune ''))) (rows ?catalog))"
    by (simp add: r o_def lower_columns_def)
  also have "\<dots> = [Str ''Dune'', Str ''dune guide'']" by code_simp
  finally have "map (\<lambda>r. r ''title'') (rows result) = [Str ''Dune'', Str ''dune guide'']" .
  with c e q b s show ?thesis by (intro exI [of _ engine] exI [of _ result]) simp
qed

section \<open>Sorting and the whole query: results\<close>

lemma key_before_Str:
  "key_before ascending (Str a) (Str b) = (if ascending then a \<le> b else b \<le> a)"
  by (simp add: key_before_def isna_def)

lemma key_before_missing: "isna y \<Longrightarrow> key_before ascending x y"
  by (simp add: key_before_def)

lemma is_Str_str_of: "is_Str x \<Longrightarrow> x = Str (str_of x)"
  by (cases x) (simp_all add: is_Str_def str_of_def)

lemma sorted_keys:
  assumes "\<forall>r \<in> set xs. is_Str (r c)"
  shows "sorted_wrt (\<lambda>r r'. key_before True (r c) (r' c)) (sort_key (\<lambda>r. str_of (r c)) xs)"
proof -
  let ?k = "\<lambda>r. str_of (r c)"
  have "sorted (map ?k (sort_key ?k xs))" by (rule sorted_sort_key)
  then have s: "sorted_wrt (\<lambda>r r'. ?k r \<le> ?k r') (sort_key ?k xs)"
    by (simp only: sorted_map)
  show ?thesis
  proof (rule sorted_wrt_mono_rel [OF _ s])
    fix r r' assume "r \<in> set (sort_key ?k xs)" "r' \<in> set (sort_key ?k xs)" "?k r \<le> ?k r'"
    with assms have "r c = Str (?k r)" "r' c = Str (?k r')" "?k r \<le> ?k r'"
      by (simp_all add: is_Str_str_of)
    then show "key_before True (r c) (r' c)"
      by (metis key_before_Str)
  qed
qed

lemma sorted_keys_descending:
  assumes "\<forall>r \<in> set xs. is_Str (r c)"
  shows "sorted_wrt (\<lambda>r r'. key_before False (r c) (r' c))
           (rev (sort_key (\<lambda>r. str_of (r c)) (rev xs)))"
proof -
  let ?k = "\<lambda>r. str_of (r c)"
  let ?s = "sort_key ?k (rev xs)"
  have "sorted (map ?k ?s)" by (rule sorted_sort_key)
  then have s: "sorted_wrt (\<lambda>r r'. ?k r \<le> ?k r') ?s"
    by (simp only: sorted_map)
  have "sorted_wrt (\<lambda>r r'. key_before False (r' c) (r c)) ?s"
  proof (rule sorted_wrt_mono_rel [OF _ s])
    fix r r' assume "r \<in> set ?s" "r' \<in> set ?s" "?k r \<le> ?k r'"
    with assms have "r c = Str (?k r)" "r' c = Str (?k r')" "?k r \<le> ?k r'"
      by (simp_all add: is_Str_str_of)
    then show "key_before False (r' c) (r c)"
      by (metis key_before_Str)
  qed
  then show ?thesis by (simp only: sorted_wrt_rev)
qed

lemma insertion_sort_values_Inr:
  assumes "insertion_sort_values d c ascending = Inr d'"
  shows "columns d' = columns d"
    and "mset (rows d') = mset (rows d)"
    and "sorted_wrt (\<lambda>r r'. key_before ascending (r c) (r' c)) (rows d')"
proof -
  let ?keyed = "filter (\<lambda>r. \<not> isna (r c)) (rows d)"
  let ?missing = "filter (\<lambda>r. isna (r c)) (rows d)"
  let ?k = "\<lambda>r. str_of (r c)"
  let ?s = "if ascending then sort_key ?k ?keyed else rev (sort_key ?k (rev ?keyed))"
  from assms have str: "\<forall>r \<in> set ?keyed. is_Str (r c)"
    and d': "d' = d\<lparr>rows := ?s @ ?missing\<rparr>"
    by (auto simp add: insertion_sort_values_def Let_def list_all_iff split: if_splits)
  show "columns d' = columns d" using d' by simp
  have "mset ?s = mset ?keyed" by simp
  then have "mset (?s @ ?missing) = mset ?keyed + mset ?missing" by simp
  also have "\<dots> = mset (rows d)"
    by (simp only: mset_filter) (simp add: add.commute)
  finally show "mset (rows d') = mset (rows d)" using d' by simp
  have s: "sorted_wrt (\<lambda>r r'. key_before ascending (r c) (r' c)) ?s"
    using sorted_keys [OF str] sorted_keys_descending [OF str] by (cases ascending) simp_all
  have m: "sorted_wrt (\<lambda>r r'. key_before ascending (r c) (r' c)) ?missing"
    by (rule sorted_wrt_mono_rel [of _ "\<lambda>r r'. True"]) (simp_all add: key_before_missing)
  have "sorted_wrt (\<lambda>r r'. key_before ascending (r c) (r' c)) (?s @ ?missing)"
    unfolding sorted_wrt_append using s m by (simp add: key_before_missing)
  then show "sorted_wrt (\<lambda>r r'. key_before ascending (r c) (r' c)) (rows d')"
    using d' by simp
qed

lemma insertion_sort_values_contract: "sort_values_contract insertion_sort_values"
  unfolding sort_values_contract_def
proof (intro allI conjI impI)
  fix d :: dataframe and c ascending
  assume "c \<notin> set (columns d)"
  then show "insertion_sort_values d c ascending = Inl (KeyError c)"
    by (simp add: insertion_sort_values_def)
next
  fix d :: dataframe and c ascending
  assume "c \<in> set (columns d) \<and> (\<forall>r\<in>set (rows d). is_Str (r c) \<or> isna (r c))"
  then show "\<exists>d'. insertion_sort_values d c ascending = Inr d'"
    by (auto simp add: insertion_sort_values_def Let_def list_all_iff)
next
  fix d :: dataframe and c ascending d'
  assume "insertion_sort_values d c ascending = Inr d'"
  then show "columns d' = columns d" "mset (rows d') = mset (rows d)"
    "sorted_wrt (\<lambda>r r'. key_before ascending (r c) (r' c)) (rows d')"
    by (rule insertion_sort_values_Inr)+
qed

lemma boolean_index_columns: "columns (boolean_index d keep) = columns d"
  by (simp add: boolean_index_def)

lemma filter_by_language_columns:
  "filter_by_language d languages = Inr d' \<Longrightarrow> columns d' = columns d"
  by (auto simp add: filter_by_language_def and_then_def getitem_def boolean_index_columns
      split: if_splits)

lemma filter_by_tags_columns:
  "filter_by_tags d tags = Inr d' \<Longrightarrow> columns d' = columns d"
  by (auto simp add: filter_by_tags_def getitem_def boolean_index_columns split: if_splits)

lemma filter_by_author_columns:
  "filter_by_author d authors = Inr d' \<Longrightarrow> columns d' = columns d"
  by (auto simp add: filter_by_author_def getitem_def boolean_index_columns split: if_splits)

lemma sort_books_columns:
  assumes "sort_values_contract sort_values"
    and "sort_books sort_values d sort_by ascending = Inr d'"
  shows "columns d' = columns d"
  using assms unfolding sort_values_contract_def sort_books_def
  by (auto split: if_splits)

lemma and_then_Inr: "and_then r f = Inr y \<longleftrightarrow> (\<exists>x. r = Inr x \<and> f x = Inr y)"
  by (cases r) (simp_all add: and_then_def)

lemma and_thenE:
  assumes "and_then r f = Inr y"
  obtains x where "r = Inr x" and "f x = Inr y"
  using assms by (auto simp add: and_then_Inr)

lemma apply_filters_columns:
  assumes "sort_values_contract sort_values"
    and "search_engine self = Some engine"
    and "apply_filters sort_values self = Inr self'"
  shows "\<exists>r0. (if search_var self \<noteq> [] then search_books engine (search_var self)
               else Inr (app_df self)) = Inr r0
              \<and> columns (filtered_df self') = columns r0"
proof -
  from assms(2,3) have "and_then
       (if search_var self \<noteq> [] then search_books engine (search_var self)
        else Inr (app_df self))
       (\<lambda>r0. and_then
          (if map fst (filter snd (language_vars self)) \<noteq> []
           then filter_by_language r0 (map fst (filter snd (language_vars self)))
           else Inr r0)
          (\<lambda>r1. and_then
             (if selected_tags self \<noteq> [] then filter_by_tags r1 (selected_tags self)
              else Inr r1)
             (\<lambda>r2. and_then
                (if selected_authors self \<noteq> []
                 then filter_by_author r2 (selected_authors self) else Inr r2)
                (\<lambda>r3. and_then
                   (sort_books sort_values r3 (sort_var self) (sort_order_var self = ''asc''))
                   (\<lambda>r4. Inr (self\<lparr>selected_languages :=
                                       map fst (filter snd (language_vars self)),
                                     filtered_df := r4\<rparr>)))))) = Inr self'"
    by (simp add: apply_filters_def Let_def)
  then show ?thesis
    by (elim and_thenE)
       (auto dest!: filter_by_language_columns filter_by_tags_columns filter_by_author_columns
          sort_books_columns [OF assms(1)] split: if_splits)
qed

lemma apply_filters_no_selection:
  assumes "search_engine self = Some engine"
    and "filter snd (language_vars self) = []"
    and "selected_tags self = []" and "selected_authors self = []"
  shows "apply_filters sort_values self =
           and_then (if search_var self \<noteq> [] then search_books engine (search_var self)
                     else Inr (app_df self)) (\<lambda>r0.
           and_then (sort_books sort_values r0 (sort_var self) (sort_order_var self = ''asc''))
             (\<lambda>r. Inr (self\<lparr>selected_languages := [], filtered_df := r\<rparr>)))"
  using assms by (simp add: apply_filters_def Let_def and_then_def split: sum.splits)

lemma example_engine_built:
  "SearchEngine astype_str_pandas2 (by_label (DataFrame example_catalog)) = Inr example_engine"
  by (simp add: SearchEngine_result example_engine_def)
     (simp add: by_label_def DataFrame_def first_seen_def example_catalog_def setitem_def)

text \<open>
  Claim C9, as the code has it: the table \<^verbatim>\<open>search_books\<close> returns has the columns of
  the catalog and the three columns \<^verbatim>\<open>_title_lower\<close>, \<^verbatim>\<open>_author_lower\<close>,
  \<^verbatim>\<open>_tags_lower\<close>, and so has the result set \<^verbatim>\<open>apply_filters\<close> stores (the one that is
  exported) whenever the search box is not empty, also when it holds only blanks; with
  an empty search box the stored result set has the columns of the catalog and none of
  the three.
\<close>

theorem derived_columns_in_search_results:
  assumes "SearchEngine astype_str catalog = Inr engine"
    and "search_engine self = Some engine" and "app_df self = catalog"
    and "sort_values_contract sort_values"
    and "set (columns catalog) \<inter> {''_title_lower'', ''_author_lower'', ''_tags_lower''} = {}"
  shows "(\<exists>result. search_books engine query = Inr result
            \<and> set (columns result)
                = set (columns catalog) \<union> {''_title_lower'', ''_author_lower'', ''_tags_lower''})
       \<and> (query \<noteq> [] \<longrightarrow>
            (\<forall>self'. apply_filters sort_values (self\<lparr>search_var := query\<rparr>) = Inr self' \<longrightarrow>
               set (columns (filtered_df self'))
                 = set (columns catalog)
                     \<union> {''_title_lower'', ''_author_lower'', ''_tags_lower''}))
       \<and> (\<forall>self'. apply_filters sort_values (self\<lparr>search_var := []\<rparr>) = Inr self' \<longrightarrow>
            columns (filtered_df self') = columns catalog
            \<and> set (columns (filtered_df self'))
                \<inter> {''_title_lower'', ''_author_lower'', ''_tags_lower''} = {})"
proof (intro conjI allI impI)
  let ?names = "{''_title_lower'', ''_author_lower'', ''_tags_lower''}"
  from search_books_columns [OF assms(1), of query] obtain result
    where s: "search_books engine query = Inr result"
      and sc: "columns result = columns (df engine)"
    by blast
  have c: "set (columns (df engine)) = set (columns catalog) \<union> ?names"
    using assms(1) by (rule SearchEngine_Inr(10))
  from s sc c show "\<exists>result. search_books engine query = Inr result
            \<and> set (columns result) = set (columns catalog) \<union> ?names"
    by (intro exI [of _ result]) simp
  {
    fix self'
    assume q: "query \<noteq> []"
      and "apply_filters sort_values (self\<lparr>search_var := query\<rparr>) = Inr self'"
    with apply_filters_columns [OF assms(4), of "self\<lparr>search_var := query\<rparr>" engine self']
    have "columns (filtered_df self') = columns (df engine)"
      using assms(2) s sc by auto
    with c show "set (columns (filtered_df self')) = set (columns catalog) \<union> ?names"
      by simp
  }
  {
    fix self'
    assume "apply_filters sort_values (self\<lparr>search_var := []\<rparr>) = Inr self'"
    with apply_filters_columns [OF assms(4), of "self\<lparr>search_var := []\<rparr>" engine self']
    show e: "columns (filtered_df self') = columns catalog"
      using assms(2,3) by auto
    show "set (columns (filtered_df self')) \<inter> ?names = {}"
      using assms(5) by (simp only: e)
  }
qed

theorem derived_columns_witness:
  "SearchEngine astype_str_pandas2 (by_label (DataFrame example_catalog)) = Inr example_engine
   \<and> sort_values_contract insertion_sort_values
   \<and> (\<exists>self'. apply_filters insertion_sort_values (example_app\<lparr>search_var := ''dune''\<rparr>)
                 = Inr self'
        \<and> set (columns (filtered_df self'))
            = {''title'', ''author'', ''language'', ''tags'',
               ''_title_lower'', ''_author_lower'', ''_tags_lower''})
   \<and> (\<exists>self'. apply_filters insertion_sort_values (example_app\<lparr>search_var := []\<rparr>) = Inr self'
        \<and> columns (filtered_df self') = [''title'', ''author'', ''language'', ''tags''])"
proof -
  let ?catalog = "by_label (DataFrame example_catalog)"
  have cols: "columns ?catalog = [''title'', ''author'', ''language'', ''tags'']"
    by (simp add: by_label_def DataFrame_def first_seen_def example_catalog_def)
  have h2: "search_engine example_app = Some example_engine"
    and h3: "app_df example_app = ?catalog"
    by (simp_all add: example_app_def)
  have h6: "set (columns ?catalog)
              \<inter> {''_title_lower'', ''_author_lower'', ''_tags_lower''} = {}"
    by (simp add: cols)
  note t = derived_columns_in_search_results
    [OF example_engine_built h2 h3 insertion_sort_values_contract h6, of "''dune''"]
  have "\<not> isl (apply_filters insertion_sort_values (example_app\<lparr>search_var := ''dune''\<rparr>))"
    by code_simp
  then obtain s1
    where s1: "apply_filters insertion_sort_values (example_app\<lparr>search_var := ''dune''\<rparr>) = Inr s1"
    by (cases "apply_filters insertion_sort_values (example_app\<lparr>search_var := ''dune''\<rparr>)") auto
  have "\<not> isl (apply_filters insertion_sort_values (example_app\<lparr>search_var := []\<rparr>))"
    by code_simp
  then obtain s2
    where s2: "apply_filters insertion_sort_values (example_app\<lparr>search_var := []\<rparr>) = Inr s2"
    by (cases "apply_filters insertion_sort_values (example_app\<lparr>search_var := []\<rparr>)") auto
  from t s1 have c1: "set (columns (filtered_df s1))
            = {''title'', ''author'', ''language'', ''tags'',
               ''_title_lower'', ''_author_lower'', ''_tags_lower''}"
    by (auto simp add: cols)
  from t s2 have c2: "columns (filtered_df s2) = [''title'', ''author'', ''language'', ''tags'']"
    by (simp add: cols)
  from s1 c1 have e1: "\<exists>self'. apply_filters insertion_sort_values
          (example_app\<lparr>search_var := ''dune''\<rparr>) = Inr self'
        \<and> set (columns (filtered_df self'))
            = {''title'', ''author'', ''language'', ''tags'',
               ''_title_lower'', ''_author_lower'', ''_tags_lower''}"
    by (intro exI [of _ s1]) simp
  from s2 c2 have e2: "\<exists>self'. apply_filters insertion_sort_values
          (example_app\<lparr>search_var := []\<rparr>) = Inr self'
        \<and> columns (filtered_df self') = [''title'', ''author'', ''language'', ''tags'']"
    by (intro exI [of _ s2]) simp
  from example_engine_built insertion_sort_values_contract e1 e2 show ?thesis
    by (intro conjI)
qed

text \<open>
  With two blanks in the search box no search is made, the query being empty after
  trimming, and the stored result set has the three columns all the same.
\<close>

theorem blank_query_result_has_derived_columns:
  "py_strip ''  '' = []
   \<and> (case apply_filters insertion_sort_values (example_app\<lparr>search_var := ''  ''\<rparr>) of
        Inl e \<Rightarrow> []
      | Inr self' \<Rightarrow> columns (filtered_df self'))
     = [''title'', ''author'', ''language'', ''tags'',
        ''_title_lower'', ''_author_lower'', ''_tags_lower'']"
  by code_simp

lemma lower_columns_other:
  "c \<in> set [''title'', ''author'', ''language''] \<Longrightarrow> lower_columns a r c = r c"
  by (auto simp add: lower_columns_def)

text \<open>
  The contract fixes the keys of the sorted column, whatever the sorting routine is: they
  are the keys of the input in ascending order. It leaves open in which order records
  with equal keys come out.
\<close>

lemma sorted_keys_determined:
  assumes "sort_values_contract sort_values"
    and "sort_values d c True = Inr d'"
    and "\<forall>r \<in> set (rows d). is_Str (r c)"
  shows "map (\<lambda>r. str_of (r c)) (rows d') = sort (map (\<lambda>r. str_of (r c)) (rows d))"
proof -
  let ?k = "\<lambda>r. str_of (r c)"
  from assms(1,2) have m: "mset (rows d') = mset (rows d)"
    and s: "sorted_wrt (\<lambda>r r'. key_before True (r c) (r' c)) (rows d')"
    unfolding sort_values_contract_def by blast+
  from m have "set (rows d') = set (rows d)" by (rule mset_eq_setD)
  with assms(3) have str: "\<forall>r \<in> set (rows d'). is_Str (r c)" by simp
  have "sorted_wrt (\<lambda>r r'. ?k r \<le> ?k r') (rows d')"
  proof (rule sorted_wrt_mono_rel [OF _ s])
    fix r r' assume "r \<in> set (rows d')" "r' \<in> set (rows d')" "key_before True (r c) (r' c)"
    with str have "r c = Str (?k r)" "r' c = Str (?k r')" "key_before True (r c) (r' c)"
      by (simp_all add: is_Str_str_of)
    then show "?k r \<le> ?k r'" by (metis key_before_Str)
  qed
  then have "sorted (map ?k (rows d'))" by (simp only: sorted_map)
  moreover from m have "mset (map ?k (rows d)) = mset (map ?k (rows d'))" by simp
  ultimately show ?thesis by (simp only: properties_for_sort)
qed

lemma every_sort_reorders_example:
  assumes "sort_values_contract sort_values"
    and "apply_filters sort_values example_app = Inr self'"
  shows "map (\<lambda>r. str_of (r ''title'')) (rows (filtered_df self'))
           = [''Atlas'', ''Dune'', ''dune guide'']"
proof -
  have "apply_filters sort_values example_app =
          and_then (sort_books sort_values (by_label (DataFrame example_catalog)) ''title'' True)
            (\<lambda>r. Inr (example_app\<lparr>selected_languages := [], filtered_df := r\<rparr>))"
    by (simp add: apply_filters_def example_app_def BookSearchApp_def Let_def and_then_def
        split: sum.splits)
  with assms(2) obtain r where r: "sort_values (by_label (DataFrame example_catalog)) ''title'' True = Inr r"
    and s: "self' = example_app\<lparr>selected_languages := [], filtered_df := r\<rparr>"
    by (auto simp add: sort_books_def elim: and_thenE)
  have "\<forall>r \<in> set (rows (by_label (DataFrame example_catalog))). is_Str (r ''title'')"
    by (simp add: by_label_def DataFrame_def first_seen_def example_catalog_def is_Str_def)
  with assms(1) r have "map (\<lambda>r. str_of (r ''title'')) (rows r)
      = sort (map (\<lambda>r. str_of (r ''title'')) (rows (by_label (DataFrame example_catalog))))"
    by (rule sorted_keys_determined)
  also have "\<dots> = [''Atlas'', ''Dune'', ''dune guide'']" by code_simp
  finally show ?thesis using s by simp
qed

text \<open>
  Claim C7, as the code has it: with an empty or blank search box and nothing selected,
  \<^verbatim>\<open>apply_filters\<close> keeps every record of the catalog (with the three lower-cased
  columns added when the box is blank and not empty) and hands them to the sort stage.
  They stay in the order of the catalog when the sort field is none of \<^verbatim>\<open>title\<close>,
  \<^verbatim>\<open>author\<close>, \<^verbatim>\<open>language\<close>; otherwise the result has the same records ordered by the
  sort field, and it is returned when the catalog has that column with strings or
  missing values in it.
\<close>

theorem empty_query_returns_catalog_in_sort_order:
  assumes "SearchEngine astype_str (app_df self) = Inr engine" and "search_engine self = Some engine"
    and "py_strip (search_var self) = []"
    and "filter snd (language_vars self) = []"
    and "selected_tags self = []" and "selected_authors self = []"
    and "sort_values_contract sort_values"
  shows "\<exists>records.
      records = (if search_var self = [] then rows (app_df self)
                 else map (lower_columns astype_str) (rows (app_df self)))
    \<and> (sort_var self \<notin> set [''title'', ''author'', ''language''] \<longrightarrow>
         (\<exists>self'. apply_filters sort_values self = Inr self'
                 \<and> rows (filtered_df self') = records))
    \<and> (sort_var self \<in> set [''title'', ''author'', ''language''] \<longrightarrow>
         (\<forall>self'. apply_filters sort_values self = Inr self' \<longrightarrow>
            mset (rows (filtered_df self')) = mset records
            \<and> sorted_wrt (\<lambda>r r'. key_before (sort_order_var self = ''asc'')
                                   (r (sort_var self)) (r' (sort_var self)))
                 (rows (filtered_df self')))
         \<and> (sort_var self \<in> set (columns (app_df self))
              \<and> (\<forall>r \<in> set (rows (app_df self)).
                    is_Str (r (sort_var self)) \<or> isna (r (sort_var self)))
            \<longrightarrow> (\<exists>self'. apply_filters sort_values self = Inr self')))"
proof -
  let ?by = "sort_var self"
  let ?asc = "sort_order_var self = ''asc''"
  define before where "before = (if search_var self = [] then app_df self else df engine)"
  let ?records = "if search_var self = [] then rows (app_df self)
                  else map (lower_columns astype_str) (rows (app_df self))"
  have pre: "(if search_var self \<noteq> [] then search_books engine (search_var self)
              else Inr (app_df self)) = Inr before"
    using assms(3) by (simp add: search_books_def before_def)
  have rows_before: "rows before = ?records"
    using SearchEngine_Inr(1) [OF assms(1)] by (simp add: before_def)
  have af: "apply_filters sort_values self =
              and_then (sort_books sort_values before ?by ?asc)
                (\<lambda>r. Inr (self\<lparr>selected_languages := [], filtered_df := r\<rparr>))"
    using apply_filters_no_selection [OF assms(2,4,5,6), of sort_values] pre
    by (simp add: and_then_def)
  have unsorted: "\<exists>self'. apply_filters sort_values self = Inr self'
                    \<and> rows (filtered_df self') = ?records"
    if "?by \<notin> set [''title'', ''author'', ''language'']"
    using that af rows_before by (simp add: sort_books_def and_then_def)
  have sorted: "mset (rows (filtered_df self')) = mset ?records
            \<and> sorted_wrt (\<lambda>r r'. key_before ?asc (r ?by) (r' ?by)) (rows (filtered_df self'))"
    if srt: "?by \<in> set [''title'', ''author'', ''language'']"
      and ret: "apply_filters sort_values self = Inr self'" for self'
  proof -
    from ret af obtain r where r: "sort_books sort_values before ?by ?asc = Inr r"
      and s: "self' = self\<lparr>selected_languages := [], filtered_df := r\<rparr>"
      by (auto elim: and_thenE)
    from r srt have "sort_values before ?by ?asc = Inr r"
      by (auto simp add: sort_books_def split: if_splits)
    with assms(7) have "mset (rows r) = mset (rows before)"
      and "sorted_wrt (\<lambda>r r'. key_before ?asc (r ?by) (r' ?by)) (rows r)"
      unfolding sort_values_contract_def by blast+
    with s rows_before show ?thesis by simp
  qed
  have returns: "\<exists>self'. apply_filters sort_values self = Inr self'"
    if srt: "?by \<in> set [''title'', ''author'', ''language'']"
      and col: "?by \<in> set (columns (app_df self))"
      and keys: "\<forall>r \<in> set (rows (app_df self)). is_Str (r ?by) \<or> isna (r ?by)"
  proof -
    have "?by \<in> set (columns before)"
      using col SearchEngine_Inr(5) [OF assms(1)] by (auto simp add: before_def)
    moreover have "\<forall>r \<in> set (rows before). is_Str (r ?by) \<or> isna (r ?by)"
      using keys lower_columns_other [OF srt] by (simp add: rows_before)
    ultimately obtain r where "sort_values before ?by ?asc = Inr r"
      using assms(7) unfolding sort_values_contract_def by blast
    with srt have "sort_books sort_values before ?by ?asc = Inr r"
      by (auto simp add: sort_books_def)
    with af show ?thesis by (simp add: and_then_def)
  qed
  from unsorted sorted returns show ?thesis by blast
qed


theorem empty_query_witness:
  "SearchEngine astype_str_pandas2 (app_df example_app) = Inr example_engine
   \<and> py_strip (search_var example_app) = []
   \<and> sort_values_contract insertion_sort_values
   \<and> (\<exists>self'. apply_filters insertion_sort_values example_app = Inr self'
         \<and> mset (rows (filtered_df self')) = mset (rows (app_df example_app)))"
proof -
  have h1: "SearchEngine astype_str_pandas2 (app_df example_app) = Inr example_engine"
    using example_engine_built by (simp add: example_app_def)
  have h2: "search_engine example_app = Some example_engine"
    and h3: "py_strip (search_var example_app) = []"
    and h4: "filter snd (language_vars example_app) = []"
    and h5: "selected_tags example_app = []" and h6: "selected_authors example_app = []"
    by (simp_all add: example_app_def BookSearchApp_def strip_Nil)
  have sv: "sort_var example_app = ''title''" and q: "search_var example_app = []"
    by (simp_all add: example_app_def BookSearchApp_def)
  have col: "sort_var example_app \<in> set (columns (app_df example_app))"
    by (simp add: example_app_def BookSearchApp_def by_label_def DataFrame_def first_seen_def
        example_catalog_def)
  have keys: "\<forall>r \<in> set (rows (app_df example_app)).
                is_Str (r (sort_var example_app)) \<or> isna (r (sort_var example_app))"
    by (simp add: example_app_def BookSearchApp_def by_label_def DataFrame_def first_seen_def
        example_catalog_def is_Str_def)
  from empty_query_returns_catalog_in_sort_order
    [OF h1 h2 h3 h4 h5 h6 insertion_sort_values_contract] sv q col keys
  obtain self' where a: "apply_filters insertion_sort_values example_app = Inr self'"
    and "\<forall>self'. apply_filters insertion_sort_values example_app = Inr self' \<longrightarrow>
            mset (rows (filtered_df self')) = mset (rows (app_df example_app))"
    by auto
  then have "mset (rows (filtered_df self')) = mset (rows (app_df example_app))" by blast
  with a have "\<exists>self'. apply_filters insertion_sort_values example_app = Inr self'
         \<and> mset (rows (filtered_df self')) = mset (rows (app_df example_app))"
    by (intro exI [of _ self']) simp
  with h1 h3 insertion_sort_values_contract show ?thesis by (intro conjI)
qed

text \<open>
  The three books are loaded in the order Dune, dune guide, Atlas; with nothing typed
  and nothing selected they come out sorted by title, the default sort field.
\<close>

theorem empty_query_is_sorted_by_title:
  "(case apply_filters insertion_sort_values example_app of
      Inl e \<Rightarrow> []
    | Inr self' \<Rightarrow> map (\<lambda>r. r ''title'') (rows (filtered_df self')))
     = [Str ''Atlas'', Str ''Dune'', Str ''dune guide'']
   \<and> map (\<lambda>r. r ''title'') (rows (app_df example_app))
     = [Str ''Dune'', Str ''dune guide'', Str ''Atlas'']"
  by code_simp

end
